theory Spec2Isabelle
  imports Main
begin

section \<open>Strings and JavaScript containers\<close>

text \<open>
  A JavaScript string is modelled as a \<^typ>\<open>string\<close>, one \<^typ>\<open>char\<close> per code unit. The model
  reads the ASCII code units only; what encoding a text as utf-8 makes of the others is a
  parameter of the file system below. The three characters the generator treats specially have
  no literal syntax inside an Isabelle string, so they get names.
\<close>

abbreviation SQ :: char where "SQ \<equiv> CHR 0x27"
abbreviation BS :: char where "BS \<equiv> CHR 0x5C"
abbreviation LF :: char where "LF \<equiv> CHR 0x0A"

text \<open>
  An ordinary object with string keys is the list of its own properties in creation order, each
  key at most once. Defining a property (as object spread and \<open>JSON.parse\<close> do) replaces the value
  of an existing key in place; a new key goes to the end. \<open>Map.prototype.set\<close> inserts the same
  way, so the \<open>Map\<close> of the generator is updated with the same function.
\<close>

type_synonym 'a jsobject = "(string \<times> 'a) list"

fun defineProp :: "'a jsobject \<Rightarrow> string \<Rightarrow> 'a \<Rightarrow> 'a jsobject" where
  "defineProp [] k v = [(k, v)]"
| "defineProp ((k', v') # rest) k v =
     (if k' = k then (k', v) # rest else (k', v') # defineProp rest k v)"

text \<open>The own property of a name, if there is one.\<close>

definition getProp :: "'a jsobject \<Rightarrow> string \<Rightarrow> 'a option" where
  "getProp obj k = map_of obj k"

text \<open>
  Every object the generator meets has \<open>Object.prototype\<close> as its prototype. A property read
  \<open>obj[k]\<close> gives the own property if there is one, and otherwise what the prototype holds
  under the name: a function, or for \<open>__proto__\<close> the prototype itself, all of them truthy.
\<close>

definition objectPrototypeNames :: "string list" where
  "objectPrototypeNames =
     [''constructor'', ''__defineGetter__'', ''__defineSetter__'', ''hasOwnProperty'',
      ''__lookupGetter__'', ''__lookupSetter__'', ''isPrototypeOf'', ''propertyIsEnumerable'',
      ''toString'', ''valueOf'', ''__proto__'', ''toLocaleString'']"

datatype 'a propertyValue = Own 'a | Inherited | Undefined

definition readProp :: "'a jsobject \<Rightarrow> string \<Rightarrow> 'a propertyValue" where
  "readProp obj k =
     (case getProp obj k of
        Some v \<Rightarrow> Own v
      | None \<Rightarrow> if k \<in> set objectPrototypeNames then Inherited else Undefined)"

text \<open>
  An assignment \<open>obj[k] = v\<close> of a string. It writes the own property if there is one and creates
  one otherwise, except under the name \<open>__proto__\<close>: there the assignment reaches the setter of
  \<open>Object.prototype\<close>, which ignores a value that is neither an object nor \<open>null\<close>.
\<close>

definition setProp :: "'a jsobject \<Rightarrow> string \<Rightarrow> 'a \<Rightarrow> 'a jsobject" where
  "setProp obj k v =
     (if k = ''__proto__'' \<and> getProp obj k = None then obj else defineProp obj k v)"

text \<open>
  \<open>Object.keys\<close>, \<open>Object.values\<close>, \<open>Object.entries\<close> and object spread enumerate the
  array-index keys first, in ascending numeric order, then the other keys in creation order. An
  array index is the canonical decimal form of an integer below \<open>2^32 - 1\<close>.
\<close>

definition isDigit :: "char \<Rightarrow> bool" where
  "isDigit c = (48 \<le> (of_char c :: int) \<and> (of_char c :: int) \<le> 57)"

definition decimalValue :: "string \<Rightarrow> int" where
  "decimalValue s = fold (\<lambda>c acc. 10 * acc + (of_char c - 48)) s 0"

definition isArrayIndex :: "string \<Rightarrow> bool" where
  "isArrayIndex s =
     (s \<noteq> [] \<and> list_all isDigit s \<and> (s = ''0'' \<or> hd s \<noteq> CHR ''0'')
      \<and> decimalValue s < 4294967295)"

definition objectEntries :: "'a jsobject \<Rightarrow> 'a jsobject" where
  "objectEntries obj =
     sort_key (\<lambda>p. decimalValue (fst p)) (filter (\<lambda>p. isArrayIndex (fst p)) obj)
     @ filter (\<lambda>p. \<not> isArrayIndex (fst p)) obj"

definition objectKeys :: "'a jsobject \<Rightarrow> string list" where
  "objectKeys obj = map fst (objectEntries obj)"

definition objectValues :: "'a jsobject \<Rightarrow> 'a list" where
  "objectValues obj = map snd (objectEntries obj)"

text \<open>
  \<open>{ ...a, ...b }\<close>: a fresh object receives the entries of \<open>a\<close>, then those of \<open>b\<close>, each by
  a property definition.
\<close>

definition copyProps :: "'a jsobject \<Rightarrow> 'a jsobject \<Rightarrow> 'a jsobject" where
  "copyProps target source =
     fold (\<lambda>(k, v) acc. defineProp acc k v) (objectEntries source) target"

definition spread :: "'a jsobject \<Rightarrow> 'a jsobject \<Rightarrow> 'a jsobject" where
  "spread a b = copyProps (copyProps [] a) b"

text \<open>A \<open>Set\<close> is the list of its members in insertion order.\<close>

definition setAdd :: "'a list \<Rightarrow> 'a \<Rightarrow> 'a list" where
  "setAdd s x = (if x \<in> set s then s else s @ [x])"

definition newSet :: "'a list \<Rightarrow> 'a list" where
  "newSet xs = fold (\<lambda>x s. setAdd s x) xs []"

text \<open>\<open>Array.prototype.join\<close> on an array of strings.\<close>

fun join :: "string \<Rightarrow> string list \<Rightarrow> string" where
  "join sep [] = []"
| "join sep [x] = x"
| "join sep (x # y # ys) = x @ sep @ join sep (y # ys)"

section \<open>The message AST\<close>

text \<open>
  The elements the message-format parser produces, with the fields \<open>compile.ts\<close> reads: the
  placeholder name (\<open>value\<close>), the \<open>options\<close> object of a select or plural (each option's
  \<open>value\<close>, a nested AST) and the \<open>children\<close> of a tag.
\<close>

datatype MessageFormatElement =
    Literal string
  | Argument string
  | Number string
  | Date string
  | Time string
  | Select string "(MessageFormatElement list) jsobject"
  | Plural string "(MessageFormatElement list) jsobject"
  | Pound
  | Tag string "MessageFormatElement list"

lemma set_objectEntries: "set (objectEntries obj) = set obj"
  by (auto simp: objectEntries_def)

lemma size_option_child:
  assumes "child \<in> set (objectValues (opts :: (MessageFormatElement list) jsobject))"
  shows "size_list size child < Suc (size_list (size_prod (\<lambda>x. 0) (size_list size)) opts)"
proof -
  from assms obtain k where "(k, child) \<in> set opts"
    by (auto simp: objectValues_def set_objectEntries)
  then have "size_prod (\<lambda>x. 0) (size_list size) (k, child)
      \<le> size_list (size_prod (\<lambda>x. 0) (size_list size)) opts"
    by (simp add: size_list_estimation')
  then show ?thesis by simp
qed

lemma size_select_child [termination_simp]:
  assumes "Select name opts \<in> set ast" and "child \<in> set (objectValues opts)"
  shows "size_list size child < size_list size ast"
proof -
  have "size (Select name opts) \<le> size_list size ast"
    using assms(1) by (simp add: size_list_estimation')
  with size_option_child [OF assms(2)] show ?thesis by simp
qed

section \<open>The placeholder type inferencer\<close>

fun extractHasTags :: "MessageFormatElement list \<Rightarrow> bool" where
  "extractHasTags ast = list_ex (\<lambda>element. case element of
        Select name opts \<Rightarrow> list_ex (\<lambda>child. extractHasTags child) (objectValues opts)
      | Tag name children \<Rightarrow> True
      | _ \<Rightarrow> False) ast"

declare extractHasTags.simps [simp del]

lemma extractHasTags_Nil [simp]: "extractHasTags [] = False"
  by (subst extractHasTags.simps) simp

lemma extractHasTags_Cons [simp]:
  "extractHasTags (element # rest) =
     ((case element of
         Select name opts \<Rightarrow> list_ex extractHasTags (objectValues opts)
       | Tag name children \<Rightarrow> True
       | _ \<Rightarrow> False) \<or> extractHasTags rest)"
proof -
  let ?f = "\<lambda>element. case element of
        Select name opts \<Rightarrow> list_ex (\<lambda>child. extractHasTags child) (objectValues opts)
      | Tag name children \<Rightarrow> True
      | _ \<Rightarrow> False"
  have "extractHasTags (element # rest) = list_ex ?f (element # rest)"
    by (rule extractHasTags.simps)
  also have "\<dots> = (?f element \<or> list_ex ?f rest)"
    by simp
  also have "list_ex ?f rest = extractHasTags rest"
    by (rule extractHasTags.simps [symmetric])
  finally show ?thesis .
qed

type_synonym ICUParams = "string jsobject"

definition formatXMLElementFnImport :: string where
  "formatXMLElementFnImport =
     ''import { FormatXMLElementFn } from '' @ [SQ] @ ''@vocab/types'' @ [SQ] @ '';''"

text \<open>
  The \<open>for\<close> loop of \<open>extractParamTypes\<close>, from the state \<open>(params, imports)\<close> it has reached;
  the function itself starts the loop from the empty object and the empty set. The types are
  assigned (\<open>params[element.value] = ...\<close>), the parameters of the children are spread in.
\<close>

function (sequential) extractParamTypesFrom ::
  "MessageFormatElement list \<Rightarrow> ICUParams \<times> string list \<Rightarrow> ICUParams \<times> string list" where
  "extractParamTypesFrom [] st = st"
| "extractParamTypesFrom (element # rest) (ps, imps) =
     extractParamTypesFrom rest
       (case element of
          Argument name \<Rightarrow> (setProp ps name ''string'', imps)
        | Number name \<Rightarrow> (setProp ps name ''number'', imps)
        | Plural name opts \<Rightarrow> (setProp ps name ''number'', imps)
        | Date name \<Rightarrow> (setProp ps name ''Date | number'', imps)
        | Time name \<Rightarrow> (setProp ps name ''Date | number'', imps)
        | Tag name children \<Rightarrow>
            (let ps1 = setProp ps name ''FormatXMLElementFn<T>'';
                 imps1 = setAdd imps formatXMLElementFnImport;
                 (subParams, subImports) = extractParamTypesFrom children ([], [])
             in (spread ps1 subParams, newSet (imps1 @ subImports)))
        | Select name opts \<Rightarrow>
            (let ps1 =
               setProp ps name
                 (join '' | '' (map (\<lambda>label. [SQ] @ label @ [SQ]) (objectKeys opts)))
             in fold (\<lambda>child (ps2, imps2).
                        let (subParams, subImports) = extractParamTypesFrom child ([], [])
                        in (spread ps2 subParams, newSet (imps2 @ subImports)))
                  (objectValues opts) (ps1, imps))
        | _ \<Rightarrow> (ps, imps))"
  by pat_completeness auto
termination
  by (relation "measure (\<lambda>(ast, st). size_list size ast)")
     (auto dest: size_option_child)

definition extractParamTypes :: "MessageFormatElement list \<Rightarrow> ICUParams \<times> string list" where
  "extractParamTypes ast = extractParamTypesFrom ast ([], [])"

text \<open>The parser's type guard for literal text.\<close>

fun isLiteralElement :: "MessageFormatElement \<Rightarrow> bool" where
  "isLiteralElement (Literal s) = True"
| "isLiteralElement e = False"

section \<open>The literal encoder and the type serialiser\<close>

text \<open>\<open>v.replace(/'/g, "\\'")\<close> and \<open>v.replace(/\\/g, '\\\\')\<close>.\<close>

definition encodeWithinSingleQuotes :: "string \<Rightarrow> string" where
  "encodeWithinSingleQuotes v = concat (map (\<lambda>c. if c = SQ then [BS, SQ] else [c]) v)"

definition encodeBackslash :: "string \<Rightarrow> string" where
  "encodeBackslash v = concat (map (\<lambda>c. if c = BS then [BS, BS] else [c]) v)"

text \<open>
  The values \<open>serialiseObjectToType\<close> meets are strings (code fragments, inserted as they are)
  and nested objects.
\<close>

datatype jsvalue = JString string | JObject "jsvalue jsobject"

lemma size_object_entry:
  assumes "(key, JObject obj) \<in> set (objectEntries (v :: jsvalue jsobject))"
  shows "size_list (size_prod (\<lambda>x. 0) size) obj < size_list (size_prod (\<lambda>x. 0) size) v"
proof -
  from assms have "(key, JObject obj) \<in> set v"
    by (simp add: set_objectEntries)
  then have "size_prod (\<lambda>x. 0) size (key, JObject obj) \<le> size_list (size_prod (\<lambda>x. 0) size) v"
    by (simp add: size_list_estimation')
  then show ?thesis by simp
qed

function serialiseObjectToType :: "jsvalue jsobject \<Rightarrow> string" where
  "serialiseObjectToType v =
     ''{ '' @
     fold (\<lambda>(key, val) result.
             case val of
               JObject obj \<Rightarrow>
                 result @ [SQ] @ encodeWithinSingleQuotes key @ [SQ] @ '': ''
                   @ serialiseObjectToType obj @ '',''
             | JString fragment \<Rightarrow>
                 result @ [SQ] @ encodeWithinSingleQuotes key @ [SQ] @ '': '' @ fragment @ '','')
          (objectEntries v) []
     @ '' }''"
  by pat_completeness auto
termination
  by (relation "measure (size_list (size_prod (\<lambda>x. 0) size))")
     (auto dest: size_object_entry)

declare serialiseObjectToType.simps [simp del]

definition stringValues :: "string jsobject \<Rightarrow> jsvalue jsobject" where
  "stringValues obj = map (\<lambda>(k, fragment). (k, JString fragment)) obj"

section \<open>The runtime module generator\<close>

datatype error =
    ParseError string
  | FormatError string
  | LoadError string
  | TypeError string
  | ENOENT string
  | EISDIR string

record TranslationTypeInfo =
  params :: ICUParams
  message :: string
  returnType :: string
  hasTags :: bool

text \<open>A translation of one key: of its fields the generator reads \<open>message\<close> only.\<close>

datatype TranslationData = TranslationData (messageOf: string)

type_synonym LanguageTranslations = "TranslationData jsobject"

record LoadedTranslation =
  filePath :: string
  keys :: "string list"
  languages :: "LanguageTranslations jsobject"

text \<open>
  What \<open>compile.ts\<close> imports from other modules is a parameter of the model: the message-format
  parser, the formatter (its configuration, of a type \<open>'c\<close> the generator only passes on, is taken
  to depend on the path alone), the path conventions of \<open>./utils\<close>, the JSON text of a language's
  messages, the functions of \<open>path\<close>, and the translation loader, which reads the files. The
  watcher works relative to \<open>cwd\<close>, which is \<open>config.projectRoot\<close> when that is set; the
  functions of \<open>fs\<close> resolve a relative path against \<open>processCwd\<close>, the working directory of the
  process. \<open>utf8\<close> is the text read back from a file into which a text was written with that
  encoding: the text itself unless it holds a lone surrogate, which is replaced.
\<close>

record 'c env =
  parse :: "string \<Rightarrow> error + MessageFormatElement list"
  resolveConfig :: "string \<Rightarrow> error + 'c"
  format :: "string \<Rightarrow> 'c \<Rightarrow> error + string"
  stringifyMessages :: "LanguageTranslations \<Rightarrow> string"
  getTSFileFromDevLanguageFile :: "string \<Rightarrow> string"
  isDevLanguageFile :: "string \<Rightarrow> bool"
  isAltLanguageFile :: "string \<Rightarrow> bool"
  getDevLanguageFileFromAltLanguageFile :: "string \<Rightarrow> string"
  isTranslationDirectory :: "string \<Rightarrow> bool"
  devTranslationFileName :: string
  pathResolve :: "string \<Rightarrow> string \<Rightarrow> string"
  pathJoin :: "string \<Rightarrow> string \<Rightarrow> string"
  pathDirname :: "string \<Rightarrow> string"
  cwd :: string
  processCwd :: string
  utf8 :: "string \<Rightarrow> string"
  loadTranslation :: "(string \<rightharpoonup> string) \<Rightarrow> string \<Rightarrow> error + LoadedTranslation"

text \<open>
  The inner loop of \<open>generateRuntime\<close>, over the languages of the unit, for one key. Its state is
  \<open>(params, messages, hasTags, imports)\<close>; a message the parser rejects ends the generation.
  The test \<open>if (translatedLanguage[key])\<close> is a property read: where the language has no own
  translation of the key but the key is a name of \<open>Object.prototype\<close>, the test succeeds, the
  \<open>message\<close> of what was found is \<open>undefined\<close>, and the parser throws on it when it asks for
  the length of its input. The calls of \<open>trace\<close>, which only print debugging lines, are left out
  throughout.
\<close>

definition quoteMessage :: "string \<Rightarrow> string" where
  "quoteMessage m = [SQ] @ encodeWithinSingleQuotes m @ [SQ]"

definition parseUndefined :: error where
  "parseUndefined =
     TypeError (''Cannot read properties of undefined (reading '' @ [SQ] @ ''length'' @ [SQ] @ '')'')"

fun languagesLoop ::
  "(string \<Rightarrow> error + MessageFormatElement list) \<Rightarrow> string \<Rightarrow> LanguageTranslations list \<Rightarrow>
   ICUParams \<times> string list \<times> bool \<times> string list \<Rightarrow>
   error + ICUParams \<times> string list \<times> bool \<times> string list" where
  "languagesLoop prs key [] st = Inr st"
| "languagesLoop prs key (translatedLanguage # rest) (ps, messages, tags, imps) =
     (case readProp translatedLanguage key of
        Undefined \<Rightarrow> languagesLoop prs key rest (ps, messages, tags, imps)
      | Inherited \<Rightarrow> Inl parseUndefined
      | Own translation \<Rightarrow>
          (case prs (messageOf translation) of
             Inl e \<Rightarrow> Inl e
           | Inr ast \<Rightarrow>
               (let tags1 = (tags \<or> extractHasTags ast);
                    (parsedParams, parsedImports) = extractParamTypes ast;
                    imps1 = newSet (imps @ parsedImports);
                    ps1 = spread ps parsedParams;
                    messages1 = setAdd messages (quoteMessage (messageOf translation))
                in languagesLoop prs key rest (ps1, messages1, tags1, imps1))))"

text \<open>
  The messages of a key: those of the languages that have a translation of their own for it, in
  the order of the loop.
\<close>

definition keyMessages :: "string \<Rightarrow> LanguageTranslations list \<Rightarrow> string list" where
  "keyMessages key translatedLanguages =
     map messageOf (List.map_filter (\<lambda>translatedLanguage. getProp translatedLanguage key)
       translatedLanguages)"

text \<open>
  The outer loop, over the keys of the unit; its state is \<open>(translationTypes, imports)\<close>, the
  first a \<open>Map\<close>.
\<close>

fun keysLoop ::
  "(string \<Rightarrow> error + MessageFormatElement list) \<Rightarrow> LanguageTranslations jsobject \<Rightarrow>
   string list \<Rightarrow> TranslationTypeInfo jsobject \<times> string list \<Rightarrow>
   error + TranslationTypeInfo jsobject \<times> string list" where
  "keysLoop prs loadedLanguages [] st = Inr st"
| "keysLoop prs loadedLanguages (key # rest) (translationTypes, imps) =
     (case languagesLoop prs key (objectValues loadedLanguages) ([], [], False, imps) of
        Inl e \<Rightarrow> Inl e
      | Inr (ps, messages, tags, imps1) \<Rightarrow>
          keysLoop prs loadedLanguages rest
            (defineProp translationTypes key
               \<lparr> params = ps,
                 message = join '' | '' messages,
                 returnType = (if tags then ''NonNullable<ReactNode>'' else ''string''),
                 hasTags = tags \<rparr>,
             imps1))"

text \<open>The accessor type of one key, as \<open>serialiseTranslationRuntime\<close> writes it.\<close>

definition translationFunctionString :: "TranslationTypeInfo \<Rightarrow> string" where
  "translationFunctionString info =
     (if length (objectKeys (params info)) > 0
      then (if hasTags info then ''<T = string>'' else [])
           @ ''(values: '' @ serialiseObjectToType (stringValues (params info)) @ '') => ''
           @ (if hasTags info then ''string | T | Array<string | T>'' else ''string'')
      else ''() => '' @ message info)"

definition banner :: string where
  "banner = ''// This file is automatically generated by Vocab.'' @ [LF]
     @ ''// To make changes update translation.json files directly.''"

text \<open>
  The object \<open>translationsType\<close> the first loop of \<open>serialiseTranslationRuntime\<close> fills, by
  assignments to an object that starts empty.
\<close>

definition translationsTypeOf :: "TranslationTypeInfo jsobject \<Rightarrow> string jsobject" where
  "translationsTypeOf types =
     fold (\<lambda>(key, info) acc. setProp acc (encodeBackslash key) (translationFunctionString info))
       types []"

definition serialiseTranslationRuntime ::
  "'c env \<Rightarrow> TranslationTypeInfo jsobject \<Rightarrow> string list \<Rightarrow> LoadedTranslation \<Rightarrow> string" where
  "serialiseTranslationRuntime e types imps loadedTranslation =
     (let translationsType = translationsTypeOf types;
          content =
            join '',''
              (map (\<lambda>(languageName, translations).
                      [SQ] @ encodeWithinSingleQuotes languageName @ [SQ] @ '': createLanguage(''
                        @ stringifyMessages e translations @ '')'')
                 (objectEntries (languages loadedTranslation)));
          languagesUnionAsString =
            join '' | ''
              (map (\<lambda>l. [SQ] @ l @ [SQ]) (objectKeys (languages loadedTranslation)))
      in banner @ [LF, LF] @ ''  '' @ join [LF] imps @ [LF]
         @ ''  import { createLanguage, createTranslationFile } from '' @ [SQ]
         @ ''@vocab/core/runtime'' @ [SQ] @ '';'' @ [LF, LF]
         @ ''  const translations = createTranslationFile<'' @ languagesUnionAsString @ '', ''
         @ serialiseObjectToType (stringValues translationsType) @ ''>({'' @ content @ ''});''
         @ [LF, LF] @ ''  export default translations;'')"

text \<open>
  The file system: the files, a map from absolute paths to the text read back from them, and the
  directories. A path handed to \<open>fs\<close> is resolved against the working directory of the process.
  Reading fails where there is no file. Writing fails where the path is a directory and where the
  directory of the path does not exist; otherwise the file holds the text as utf-8, and the write
  is logged with the text that was handed over. The console is the list of what was printed.
\<close>

datatype logEntry = Log "string list" | LogError error

record world =
  files :: "string \<rightharpoonup> string"
  dirs :: "string list"
  writes :: "(string \<times> string) list"
  console :: "logEntry list"

definition fsPath :: "'c env \<Rightarrow> string \<Rightarrow> string" where
  "fsPath e path = pathResolve e (processCwd e) path"

definition readFile :: "'c env \<Rightarrow> world \<Rightarrow> string \<Rightarrow> error + string" where
  "readFile e w path =
     (case files w (fsPath e path) of
        None \<Rightarrow> Inl (if fsPath e path \<in> set (dirs w) then EISDIR (fsPath e path)
                     else ENOENT (fsPath e path))
      | Some c \<Rightarrow> Inr c)"

definition writeFile :: "'c env \<Rightarrow> world \<Rightarrow> string \<Rightarrow> string \<Rightarrow> error + world" where
  "writeFile e w path contents =
     (if fsPath e path \<in> set (dirs w) then Inl (EISDIR (fsPath e path))
      else if pathDirname e (fsPath e path) \<notin> set (dirs w) then Inl (ENOENT (fsPath e path))
      else Inr (w\<lparr> files := (files w)(fsPath e path \<mapsto> utf8 e contents),
                   writes := writes w @ [(fsPath e path, contents)] \<rparr>))"

definition existsSync :: "'c env \<Rightarrow> world \<Rightarrow> string \<Rightarrow> bool" where
  "existsSync e w path = (files w (fsPath e path) \<noteq> None \<or> fsPath e path \<in> set (dirs w))"

definition writeIfChanged :: "'c env \<Rightarrow> world \<Rightarrow> string \<Rightarrow> string \<Rightarrow> error + world" where
  "writeIfChanged e w filepath contents =
     (let hasChanged =
            (case readFile e w filepath of
               Inl err \<Rightarrow> True
             | Inr existingContents \<Rightarrow> existingContents \<noteq> contents)
      in if hasChanged then writeFile e w filepath contents else Inr w)"

definition generateRuntime :: "'c env \<Rightarrow> world \<Rightarrow> LoadedTranslation \<Rightarrow> error + world" where
  "generateRuntime e w loadedTranslation =
     (case keysLoop (parse e) (languages loadedTranslation) (keys loadedTranslation) ([], []) of
        Inl err \<Rightarrow> Inl err
      | Inr (translationTypes, imps) \<Rightarrow>
          (case resolveConfig e (filePath loadedTranslation) of
             Inl err \<Rightarrow> Inl err
           | Inr prettierConfig \<Rightarrow>
               (case format e (serialiseTranslationRuntime e translationTypes imps loadedTranslation)
                       prettierConfig of
                  Inl err \<Rightarrow> Inl err
                | Inr declaration \<Rightarrow>
                    writeIfChanged e w
                      (getTSFileFromDevLanguageFile e (filePath loadedTranslation))
                      declaration)))"

section \<open>The change watcher\<close>

text \<open>
  A handler is an \<open>async\<close> function: \<^term>\<open>Inl\<close> is a rejected promise. Handlers are taken to run
  one after the other. The paths of the events are relative to \<open>cwd\<close>. The handler of file
  events resolves them against \<open>cwd\<close>; the handler of new directories hands the relative path,
  joined with the name of the authoring file, to \<open>fs\<close> as it is.
\<close>

definition onTranslationChange :: "'c env \<Rightarrow> world \<Rightarrow> string \<Rightarrow> error + world" where
  "onTranslationChange e w relativePath =
     (let targetFile =
            (if isDevLanguageFile e relativePath
             then Some (pathResolve e (cwd e) relativePath)
             else if isAltLanguageFile e relativePath
             then Some (getDevLanguageFileFromAltLanguageFile e
                          (pathResolve e (cwd e) relativePath))
             else None)
      in case targetFile of
           None \<Rightarrow> Inr w
         | Some target \<Rightarrow>
             if target = [] then Inr w
             else
               (case (case loadTranslation e (files w) target of
                        Inl err \<Rightarrow> Inl err
                      | Inr loadedTranslation \<Rightarrow> generateRuntime e w loadedTranslation) of
                  Inl err \<Rightarrow>
                    Inr (w\<lparr> console := console w
                           @ [Log [''Failed to generate types for'', relativePath],
                              LogError err] \<rparr>)
                | Inr w' \<Rightarrow> Inr w'))"

definition onNewDirectory :: "'c env \<Rightarrow> world \<Rightarrow> string \<Rightarrow> error + world" where
  "onNewDirectory e w relativePath =
     (if \<not> isTranslationDirectory e relativePath then Inr w
      else
        (let newFilePath = pathJoin e relativePath (devTranslationFileName e)
         in if \<not> existsSync e w newFilePath
            then writeFile e w newFilePath ''{}''
            else Inr w))"

datatype watchEvent = Add string | Change string | AddDir string

definition handleEvent :: "'c env \<Rightarrow> world \<Rightarrow> watchEvent \<Rightarrow> error + world" where
  "handleEvent e w ev =
     (case ev of
        AddDir relativePath \<Rightarrow> onNewDirectory e w relativePath
      | Add relativePath \<Rightarrow> onTranslationChange e w relativePath
      | Change relativePath \<Rightarrow> onTranslationChange e w relativePath)"

text \<open>The session handles the events in turn; a handler that rejects ends it.\<close>

fun watchSession :: "'c env \<Rightarrow> world \<Rightarrow> watchEvent list \<Rightarrow> error + world" where
  "watchSession e w [] = Inr w"
| "watchSession e w (ev # evs) =
     (case handleEvent e w ev of
        Inl err \<Rightarrow> Inl err
      | Inr w' \<Rightarrow> watchSession e w' evs)"

section \<open>Reading a generated literal back\<close>

text \<open>
  The generated module is TypeScript source; what stands between single quotes is read back by
  the scanner of that language. Its rules for a single-quoted string literal, as far as the
  encoders can produce them: a backslash and the character after it form an escape; an unescaped
  quote closes the literal, which must then be the whole text; a line break inside is an error.
  Escapes with digits, \<open>x\<close> or \<open>u\<close> take more characters and are left out (\<^term>\<open>None\<close>).
\<close>

definition escapeValue :: "char \<Rightarrow> string option" where
  "escapeValue d =
     (if d = CHR ''n'' then Some [LF]
      else if d = CHR ''r'' then Some [CHR 0x0D]
      else if d = CHR ''t'' then Some [CHR 0x09]
      else if d = CHR ''b'' then Some [CHR 0x08]
      else if d = CHR ''f'' then Some [CHR 0x0C]
      else if d = CHR ''v'' then Some [CHR 0x0B]
      else if d = LF then Some []
      else if isDigit d \<or> d = CHR ''x'' \<or> d = CHR ''u'' then None
      else Some [d])"

fun readStringBody :: "string \<Rightarrow> string option" where
  "readStringBody [] = None"
| "readStringBody [c] = (if c = SQ then Some [] else None)"
| "readStringBody (c # d # rest) =
     (if c = SQ then None
      else if c = BS then
        (case escapeValue d of
           None \<Rightarrow> None
         | Some v \<Rightarrow> map_option (\<lambda>s. v @ s) (readStringBody rest))
      else if c = LF \<or> c = CHR 0x0D then None
      else map_option (\<lambda>s. c # s) (readStringBody (d # rest)))"

definition readSingleQuoted :: "string \<Rightarrow> string option" where
  "readSingleQuoted src =
     (case src of [] \<Rightarrow> None | c # rest \<Rightarrow> if c = SQ then readStringBody rest else None)"

section \<open>An environment for the examples\<close>

text \<open>
  A parser that reads every message as literal text, a formatter that returns its input, path
  conventions in the style of \<open>./utils\<close> and POSIX paths; the loader finds a unit without keys
  wherever the authoring file exists. The project root is \<open>/app\<close>, and the process runs there.
\<close>

definition exampleEnv :: "unit env" where
  "exampleEnv =
     \<lparr> parse = (\<lambda>m. Inr [Literal m]),
       resolveConfig = (\<lambda>path. Inr ()),
       format = (\<lambda>source config. Inr source),
       stringifyMessages = (\<lambda>translations. ''{}''),
       getTSFileFromDevLanguageFile = (\<lambda>path. path @ ''.ts''),
       isDevLanguageFile = (\<lambda>path. path = ''a.vocab/translations.json''),
       isAltLanguageFile = (\<lambda>path. path = ''a.vocab/fr.translations.json''),
       getDevLanguageFileFromAltLanguageFile = (\<lambda>path. ''/app/a.vocab/translations.json''),
       isTranslationDirectory = (\<lambda>path. path = ''a.vocab''),
       devTranslationFileName = ''translations.json'',
       pathResolve = (\<lambda>base path.
          case path of
            [] \<Rightarrow> base
          | c # cs \<Rightarrow> if c = CHR ''/'' then path else base @ ''/'' @ path),
       pathJoin = (\<lambda>dir name. dir @ ''/'' @ name),
       pathDirname = (\<lambda>path. rev (tl (dropWhile (\<lambda>c. c \<noteq> CHR ''/'') (rev path)))),
       cwd = ''/app'',
       processCwd = ''/app'',
       utf8 = (\<lambda>contents. contents),
       loadTranslation = (\<lambda>fs path.
          case fs path of
            None \<Rightarrow> Inl (LoadError path)
          | Some contents \<Rightarrow>
              Inr \<lparr> filePath = path, keys = [], languages = [(''en'', [])] \<rparr>) \<rparr>"

text \<open>The same project, watched by a process that was started in \<open>/srv\<close>.\<close>

definition elsewhereEnv :: "unit env" where
  "elsewhereEnv = exampleEnv\<lparr> processCwd := ''/srv'' \<rparr>"

text \<open>The unit of the examples is what a freshly seeded directory holds.\<close>

definition exampleUnit :: LoadedTranslation where
  "exampleUnit =
     \<lparr> filePath = ''/app/a.vocab/translations.json'', keys = [], languages = [(''en'', [])] \<rparr>"

text \<open>A world with the directories of the project (and \<open>/srv\<close>) and no file.\<close>

definition emptyWorld :: world where
  "emptyWorld =
     \<lparr> files = Map.empty, dirs = [''/app'', ''/app/a.vocab'', ''/srv''], writes = [],
       console = [] \<rparr>"

text \<open>A world in which the output of the unit is already what the generator produces.\<close>

definition upToDateWorld :: world where
  "upToDateWorld =
     \<lparr> files = [''/app/a.vocab/translations.json.ts'' \<mapsto>
                  serialiseTranslationRuntime exampleEnv [] [] exampleUnit],
       dirs = [''/app'', ''/app/a.vocab'', ''/srv''], writes = [], console = [] \<rparr>"

text \<open>A world that holds the authoring file of the unit and nothing else.\<close>

definition seededWorld :: world where
  "seededWorld =
     \<lparr> files = [''/app/a.vocab/translations.json'' \<mapsto> ''{}''],
       dirs = [''/app'', ''/app/a.vocab'', ''/srv''], writes = [], console = [] \<rparr>"

text \<open>
  A unit with one key, translated by three languages, two of them with the same message; and a
  unit with a key that no language translates.
\<close>

definition helloUnit :: LoadedTranslation where
  "helloUnit =
     \<lparr> filePath = ''/app/a.vocab/translations.json'', keys = [''hello''],
       languages =
         [(''en'', [(''hello'', TranslationData ''Hello'')]),
          (''fr'', [(''hello'', TranslationData ''Bonjour'')]),
          (''de'', [(''hello'', TranslationData ''Hello'')])] \<rparr>"

definition orphanUnit :: LoadedTranslation where
  "orphanUnit =
     \<lparr> filePath = ''/app/a.vocab/translations.json'', keys = [''hello'', ''orphan''],
       languages = [(''en'', [(''hello'', TranslationData ''Hello'')]), (''fr'', [])] \<rparr>"

text \<open>A world in which the process directory holds a directory of the same name as well.\<close>

definition twoProjectsWorld :: world where
  "twoProjectsWorld =
     \<lparr> files = Map.empty, dirs = [''/app'', ''/app/a.vocab'', ''/srv'', ''/srv/a.vocab''],
       writes = [], console = [] \<rparr>"

text \<open>
  The project with a formatter that parses what it formats: it rejects a text in which an arrow
  type has no result, as the TypeScript parser of the formatter does, and returns any other text
  as it is.
\<close>

fun startsWith :: "string \<Rightarrow> string \<Rightarrow> bool" where
  "startsWith s [] = True"
| "startsWith [] (p # ps) = False"
| "startsWith (c # s) (p # ps) = (c = p \<and> startsWith s ps)"

fun includesText :: "string \<Rightarrow> string \<Rightarrow> bool" where
  "includesText [] fragment = (fragment = [])"
| "includesText (c # s) fragment = (startsWith (c # s) fragment \<or> includesText s fragment)"

definition strictEnv :: "unit env" where
  "strictEnv =
     exampleEnv\<lparr> format := (\<lambda>source config.
        if includesText source ''() => ,'' then Inl (FormatError ''SyntaxError: Type expected.'')
        else Inr source) \<rparr>"

text \<open>What the key loop records for the two units.\<close>

abbreviation helloTypes :: "TranslationTypeInfo jsobject" where
  "helloTypes \<equiv>
     [(''hello'',
       \<lparr> params = [],
         message = [SQ] @ ''Hello'' @ [SQ] @ '' | '' @ [SQ] @ ''Bonjour'' @ [SQ],
         returnType = ''string'', hasTags = False \<rparr>)]"

abbreviation orphanTypes :: "TranslationTypeInfo jsobject" where
  "orphanTypes \<equiv>
     [(''hello'',
       \<lparr> params = [], message = [SQ] @ ''Hello'' @ [SQ],
         returnType = ''string'', hasTags = False \<rparr>),
      (''orphan'',
       \<lparr> params = [], message = [], returnType = ''string'', hasTags = False \<rparr>)]"

section \<open>Properties of the containers\<close>

lemma map_of_defineProp: "map_of (defineProp obj k v) = (map_of obj)(k \<mapsto> v)"
  by (induction obj k v rule: defineProp.induct) (auto simp: fun_eq_iff)

lemma keys_defineProp: "fst ` set (defineProp obj k v) = insert k (fst ` set obj)"
  by (induction obj k v rule: defineProp.induct) auto

lemma distinct_defineProp:
  "distinct (map fst obj) \<Longrightarrow> distinct (map fst (defineProp obj k v))"
proof (induction obj k v rule: defineProp.induct)
  case (1 k v)
  then show ?case by simp
next
  case (2 k' v' rest k v)
  then show ?case using keys_defineProp [of rest k v] by auto
qed

lemma map_of_fold_defineProp:
  "map_of (fold (\<lambda>(k, v) acc. defineProp acc k v) xs target) = map_of target ++ map_of (rev xs)"
proof (induction xs arbitrary: target)
  case Nil
  then show ?case by simp
next
  case (Cons p xs)
  obtain k v where p: "p = (k, v)" by (cases p)
  show ?case
    by (simp add: p Cons.IH map_of_defineProp fun_eq_iff map_add_def split: option.splits)
qed

lemma distinct_fold_defineProp:
  "distinct (map fst target) \<Longrightarrow>
   distinct (map fst (fold (\<lambda>(k, v) acc. defineProp acc k v) xs target))"
  by (induction xs arbitrary: target) (auto simp: distinct_defineProp)

lemma keys_fold_defineProp:
  "fst ` set (fold (\<lambda>(k, v) acc. defineProp acc k v) xs target) = fst ` set target \<union> fst ` set xs"
proof (induction xs arbitrary: target)
  case Nil
  then show ?case by simp
next
  case (Cons p xs)
  obtain k v where p: "p = (k, v)" by (cases p)
  show ?case
    by (simp add: p Cons.IH keys_defineProp)
qed

lemma distinct_objectEntries:
  assumes "distinct (map fst obj)"
  shows "distinct (map fst (objectEntries obj))"
proof -
  from assms have d: "distinct obj" and i: "inj_on fst (set obj)"
    by (simp_all add: distinct_map)
  have "distinct (objectEntries obj)"
    using d by (auto simp: objectEntries_def)
  moreover have "inj_on fst (set (objectEntries obj))"
    using i by (simp add: set_objectEntries)
  ultimately show ?thesis by (simp add: distinct_map)
qed

lemma map_of_objectEntries:
  assumes "distinct (map fst obj)"
  shows "map_of (objectEntries obj) = map_of obj"
  using assms distinct_objectEntries [OF assms] set_objectEntries [of obj]
  by (simp add: map_of_inject_set)

lemma map_of_rev_distinct:
  "distinct (map fst xs) \<Longrightarrow> map_of (rev xs) = map_of xs"
  by (simp add: map_of_inject_set distinct_rev rev_map [symmetric])

lemma map_of_copyProps:
  assumes "distinct (map fst source)"
  shows "map_of (copyProps target source) = map_of target ++ map_of source"
  using assms
  by (simp add: copyProps_def map_of_fold_defineProp map_of_rev_distinct
      distinct_objectEntries map_of_objectEntries)

lemma distinct_copyProps:
  "distinct (map fst target) \<Longrightarrow> distinct (map fst (copyProps target source))"
  by (simp add: copyProps_def distinct_fold_defineProp)

lemma keys_copyProps:
  "fst ` set (copyProps target source) = fst ` set target \<union> fst ` set source"
  by (simp add: copyProps_def keys_fold_defineProp set_objectEntries)

lemma distinct_spread: "distinct (map fst (spread a b))"
  by (simp add: spread_def distinct_copyProps)

lemma keys_spread: "fst ` set (spread a b) = fst ` set a \<union> fst ` set b"
  by (simp add: spread_def keys_copyProps)

lemma map_of_spread:
  assumes "distinct (map fst a)" and "distinct (map fst b)"
  shows "map_of (spread a b) = map_of a ++ map_of b"
  using assms by (simp add: spread_def map_of_copyProps)

lemma set_setAdd: "set (setAdd s x) = insert x (set s)"
  by (auto simp: setAdd_def)

lemma set_fold_setAdd: "set (fold (\<lambda>x s. setAdd s x) xs s) = set xs \<union> set s"
  by (induction xs arbitrary: s) (auto simp: set_setAdd)

lemma set_newSet: "set (newSet xs) = set xs"
  by (simp add: newSet_def set_fold_setAdd)

text \<open>
  The objects the generator builds by assignments and spreads from the empty object: the keys
  are distinct, and \<open>__proto__\<close> is none of them.
\<close>

definition plain :: "'a jsobject \<Rightarrow> bool" where
  "plain obj = (distinct (map fst obj) \<and> ''__proto__'' \<notin> fst ` set obj)"

lemma plain_Nil: "plain []"
  by (simp add: plain_def)

lemma plain_distinct: "plain obj \<Longrightarrow> distinct (map fst obj)"
  by (simp add: plain_def)

lemma getProp_map_of: "getProp obj = map_of obj"
  by (simp add: fun_eq_iff getProp_def)

lemma plain_no_proto: "plain obj \<Longrightarrow> map_of obj ''__proto__'' = None"
  by (simp add: plain_def map_of_eq_None_iff)

lemma setProp_proto: "plain obj \<Longrightarrow> setProp obj ''__proto__'' v = obj"
  by (simp add: setProp_def getProp_def plain_no_proto)

lemma setProp_other: "k \<noteq> ''__proto__'' \<Longrightarrow> setProp obj k v = defineProp obj k v"
  by (simp add: setProp_def)

lemma plain_setProp: "plain obj \<Longrightarrow> plain (setProp obj k v)"
proof (cases "k = ''__proto__''")
  case True
  assume "plain obj"
  then show ?thesis by (simp add: True setProp_proto)
next
  case False
  assume "plain obj"
  then show ?thesis
    using False by (simp add: setProp_other plain_def distinct_defineProp keys_defineProp)
qed

lemma map_of_setProp_new:
  "k \<noteq> ''__proto__'' \<Longrightarrow> map_of (setProp [] k v) = [k \<mapsto> v]"
  by (simp add: setProp_other)

lemma map_of_setProp:
  assumes "plain obj"
  shows "map_of (setProp obj k v) = map_of obj ++ map_of (setProp [] k v)"
proof (cases "k = ''__proto__''")
  case True
  then show ?thesis
    using assms by (simp add: setProp_proto plain_Nil)
next
  case False
  then show ?thesis
    by (simp add: setProp_other map_of_defineProp)
qed

lemma plain_spread: "plain a \<Longrightarrow> plain b \<Longrightarrow> plain (spread a b)"
  by (simp add: plain_def distinct_spread keys_spread)

lemma extractParamTypesFrom_append:
  "extractParamTypesFrom (xs @ ys) st = extractParamTypesFrom ys (extractParamTypesFrom xs st)"
proof (induction xs arbitrary: st)
  case Nil
  then show ?case by simp
next
  case (Cons x xs)
  obtain p i where "st = (p, i)" by (cases st)
  then show ?case by (simp add: Cons.IH)
qed

section \<open>The inferencer merges: the state it starts from is overridden by what it writes\<close>

text \<open>
  Run from a state \<open>(p, i)\<close> with a plain object, the loop ends in a state with a plain object
  whose bindings are those of \<open>p\<close> overridden by what the same list writes from the empty state,
  and whose imports are those of \<open>i\<close> and of the list.
\<close>

definition merges :: "MessageFormatElement list \<Rightarrow> bool" where
  "merges ast = (\<forall>p i. plain p \<longrightarrow>
     plain (fst (extractParamTypesFrom ast (p, i))) \<and>
     map_of (fst (extractParamTypesFrom ast (p, i))) =
       map_of p ++ map_of (fst (extractParamTypes ast)) \<and>
     set (snd (extractParamTypesFrom ast (p, i))) =
       set i \<union> set (snd (extractParamTypes ast)))"

lemma mergesD:
  assumes "merges ast" and "plain p"
  shows "plain (fst (extractParamTypesFrom ast (p, i)))"
    and "map_of (fst (extractParamTypesFrom ast (p, i))) =
       map_of p ++ map_of (fst (extractParamTypes ast))"
    and "set (snd (extractParamTypesFrom ast (p, i))) = set i \<union> set (snd (extractParamTypes ast))"
  using assms unfolding merges_def by blast+

lemma merges_plain: "merges ast \<Longrightarrow> plain (fst (extractParamTypes ast))"
  using mergesD(1) [of ast "[]" "[]"] by (simp add: extractParamTypes_def plain_Nil)

lemma foldl_map_add: "foldl (++) (a ++ b) ms = a ++ foldl (++) b ms"
proof (induction ms arbitrary: b)
  case Nil
  then show ?case by simp
next
  case (Cons m ms)
  show ?case using Cons.IH [of "b ++ m"] by simp
qed

lemma fold_mergeChild:
  fixes f :: "MessageFormatElement list \<Rightarrow> ICUParams \<times> string list \<Rightarrow> ICUParams \<times> string list"
  defines "f \<equiv> (\<lambda>child (ps2, imps2).
                        let (subParams, subImports) = extractParamTypesFrom child ([], [])
                        in (spread ps2 subParams, newSet (imps2 @ subImports)))"
  assumes "\<And>c. c \<in> set cs \<Longrightarrow> merges c" and "plain p"
  shows "plain (fst (fold f cs (p, i))) \<and>
     map_of (fst (fold f cs (p, i))) =
       foldl (++) (map_of p) (map (\<lambda>c. map_of (fst (extractParamTypes c))) cs) \<and>
     set (snd (fold f cs (p, i))) =
       set i \<union> (\<Union>c \<in> set cs. set (snd (extractParamTypes c)))"
  using assms(2,3)
proof (induction cs arbitrary: p i)
  case Nil
  then show ?case by simp
next
  case (Cons c cs)
  obtain sp si where sub: "extractParamTypesFrom c ([], []) = (sp, si)"
    by (cases "extractParamTypesFrom c ([], [])")
  have "merges c" using Cons.prems(1) by simp
  then have psp: "plain sp"
    using merges_plain [of c] sub by (simp add: extractParamTypes_def)
  have step: "f c (p, i) = (spread p sp, newSet (i @ si))"
    by (simp add: f_def sub)
  have IH: "plain (fst (fold f cs (spread p sp, newSet (i @ si)))) \<and>
     map_of (fst (fold f cs (spread p sp, newSet (i @ si)))) =
       foldl (++) (map_of (spread p sp)) (map (\<lambda>c. map_of (fst (extractParamTypes c))) cs) \<and>
     set (snd (fold f cs (spread p sp, newSet (i @ si)))) =
       set (newSet (i @ si)) \<union> (\<Union>c \<in> set cs. set (snd (extractParamTypes c)))"
  proof (rule Cons.IH)
    show "\<And>ca. ca \<in> set cs \<Longrightarrow> merges ca" using Cons.prems(1) by simp
    show "plain (spread p sp)" using Cons.prems(2) psp by (rule plain_spread)
  qed
  show ?case
    using IH plain_distinct [OF Cons.prems(2)] plain_distinct [OF psp]
    by (simp add: step sub map_of_spread set_newSet Un_assoc extractParamTypes_def)
qed

lemma merges_Nil: "merges []"
  by (simp add: merges_def extractParamTypes_def)

lemma merges_append:
  assumes "merges xs" and "merges ys"
  shows "merges (xs @ ys)"
  unfolding merges_def
proof (intro allI impI)
  fix p :: ICUParams and i :: "string list"
  assume dp: "plain p"
  obtain p1 i1 where s1: "extractParamTypesFrom xs (p, i) = (p1, i1)"
    by (cases "extractParamTypesFrom xs (p, i)")
  obtain px ix where sx: "extractParamTypes xs = (px, ix)"
    by (cases "extractParamTypes xs")
  have x1: "plain p1" "map_of p1 = map_of p ++ map_of px" "set i1 = set i \<union> set ix"
    using mergesD [OF assms(1) dp, of i] s1 sx by simp_all
  have dx: "plain px"
    using merges_plain [OF assms(1)] sx by simp
  note y1 = mergesD [OF assms(2) x1(1), of i1]
  note yx = mergesD [OF assms(2) dx, of ix]
  have app: "extractParamTypes (xs @ ys) = extractParamTypesFrom ys (px, ix)"
    using sx by (simp add: extractParamTypes_def extractParamTypesFrom_append)
  show "plain (fst (extractParamTypesFrom (xs @ ys) (p, i))) \<and>
     map_of (fst (extractParamTypesFrom (xs @ ys) (p, i))) =
       map_of p ++ map_of (fst (extractParamTypes (xs @ ys))) \<and>
     set (snd (extractParamTypesFrom (xs @ ys) (p, i))) =
       set i \<union> set (snd (extractParamTypes (xs @ ys)))"
    using y1 yx x1 by (simp add: extractParamTypesFrom_append s1 app Un_assoc)
qed

lemma merges_assign:
  assumes "\<And>p i. extractParamTypesFrom [e] (p, i) = (setProp p k v, i)"
  shows "merges [e]"
  unfolding merges_def
proof (intro allI impI)
  fix p :: ICUParams and i :: "string list"
  assume dp: "plain p"
  show "plain (fst (extractParamTypesFrom [e] (p, i))) \<and>
     map_of (fst (extractParamTypesFrom [e] (p, i))) =
       map_of p ++ map_of (fst (extractParamTypes [e])) \<and>
     set (snd (extractParamTypesFrom [e] (p, i))) =
       set i \<union> set (snd (extractParamTypes [e]))"
    unfolding extractParamTypes_def assms
    using plain_setProp [OF dp, of k v] map_of_setProp [OF dp, of k v]
    by simp
qed

lemma merges_Tag:
  assumes "merges children"
  shows "merges [Tag name children]"
  unfolding merges_def
proof (intro allI impI)
  fix p :: ICUParams and i :: "string list"
  assume dp: "plain p"
  obtain sp si where sub: "extractParamTypesFrom children ([], []) = (sp, si)"
    by (cases "extractParamTypesFrom children ([], [])")
  have psp: "plain sp"
    using merges_plain [OF assms] sub by (simp add: extractParamTypes_def)
  let ?t = "''FormatXMLElementFn<T>''"
  have run: "extractParamTypesFrom [Tag name children] (q, j) =
      (spread (setProp q name ?t) sp, newSet (setAdd j formatXMLElementFnImport @ si))" for q j
    by (simp add: sub)
  have pq: "plain (setProp p name ?t)" "plain (setProp [] name ?t)"
    using dp by (simp_all add: plain_setProp plain_Nil)
  have m1: "map_of (spread (setProp p name ?t) sp) =
      map_of p ++ map_of (setProp [] name ?t) ++ map_of sp"
    using map_of_spread [OF plain_distinct [OF pq(1)] plain_distinct [OF psp]]
      map_of_setProp [OF dp, of name ?t]
    by simp
  have m2: "map_of (spread (setProp [] name ?t) sp) = map_of (setProp [] name ?t) ++ map_of sp"
    using map_of_spread [OF plain_distinct [OF pq(2)] plain_distinct [OF psp]]
    by simp
  show "plain (fst (extractParamTypesFrom [Tag name children] (p, i))) \<and>
     map_of (fst (extractParamTypesFrom [Tag name children] (p, i))) =
       map_of p ++ map_of (fst (extractParamTypes [Tag name children])) \<and>
     set (snd (extractParamTypesFrom [Tag name children] (p, i))) =
       set i \<union> set (snd (extractParamTypes [Tag name children]))"
    unfolding extractParamTypes_def run
    using plain_spread [OF pq(1) psp] m1 m2
    by (simp add: set_newSet set_setAdd)
qed

lemma merges_Select:
  assumes "\<And>c. c \<in> set (objectValues opts) \<Longrightarrow> merges c"
  shows "merges [Select name opts]"
  unfolding merges_def
proof (intro allI impI)
  fix p :: ICUParams and i :: "string list"
  assume dp: "plain p"
  let ?u = "join '' | '' (map (\<lambda>label. [SQ] @ label @ [SQ]) (objectKeys opts))"
  note a = fold_mergeChild [OF assms plain_setProp [OF dp], of "objectValues opts" name ?u i]
  note b = fold_mergeChild [OF assms plain_setProp [OF plain_Nil],
      of "objectValues opts" name ?u "[]"]
  note m = map_of_setProp [OF dp, of name ?u]
  show "plain (fst (extractParamTypesFrom [Select name opts] (p, i))) \<and>
     map_of (fst (extractParamTypesFrom [Select name opts] (p, i))) =
       map_of p ++ map_of (fst (extractParamTypes [Select name opts])) \<and>
     set (snd (extractParamTypesFrom [Select name opts] (p, i))) =
       set i \<union> set (snd (extractParamTypes [Select name opts]))"
    using a b unfolding m foldl_map_add by (simp add: extractParamTypes_def)
qed

lemma merges_all: "merges ast"
proof (induction ast rule: measure_induct_rule [where f = "size_list size"])
  case (less ast)
  show ?case
  proof (cases ast)
    case Nil
    then show ?thesis by (simp add: merges_Nil)
  next
    case (Cons e rest)
    have rest: "merges rest" using less [of rest] Cons by simp
    have one: "merges [e]"
    proof (cases e)
      case (Tag name children)
      have "merges children" using less [of children] Cons Tag by simp
      then show ?thesis unfolding Tag by (rule merges_Tag)
    next
      case (Select name opts)
      have "\<And>c. c \<in> set (objectValues opts) \<Longrightarrow> merges c"
      proof -
        fix c assume "c \<in> set (objectValues opts)"
        from size_option_child [OF this] show "merges c"
          using less [of c] Cons Select by simp
      qed
      then show ?thesis unfolding Select by (rule merges_Select)
    next
      case (Literal s)
      show ?thesis unfolding Literal
        by (simp add: merges_def extractParamTypes_def)
    next
      case Pound
      show ?thesis unfolding Pound
        by (simp add: merges_def extractParamTypes_def)
    next
      case (Argument n)
      show ?thesis unfolding Argument
        by (rule merges_assign [where k = n and v = "''string''"]) simp
    next
      case (Number n)
      show ?thesis unfolding Number
        by (rule merges_assign [where k = n and v = "''number''"]) simp
    next
      case (Plural n opts)
      show ?thesis unfolding Plural
        by (rule merges_assign [where k = n and v = "''number''"]) simp
    next
      case (Date n)
      show ?thesis unfolding Date
        by (rule merges_assign [where k = n and v = "''Date | number''"]) simp
    next
      case (Time n)
      show ?thesis unfolding Time
        by (rule merges_assign [where k = n and v = "''Date | number''"]) simp
    qed
    from merges_append [OF one rest] show ?thesis by (simp add: Cons)
  qed
qed

lemma plain_extractParamTypes: "plain (fst (extractParamTypes ast))"
  by (rule merges_plain [OF merges_all])

lemma getProp_append:
  "getProp (fst (extractParamTypes (xs @ ys))) =
     getProp (fst (extractParamTypes xs)) ++ getProp (fst (extractParamTypes ys))"
proof -
  have "map_of (fst (extractParamTypesFrom ys (extractParamTypes xs))) =
      map_of (fst (extractParamTypes xs)) ++ map_of (fst (extractParamTypes ys))"
    using mergesD(2) [OF merges_all plain_extractParamTypes, of ys xs "snd (extractParamTypes xs)"]
    by simp
  then show ?thesis
    by (simp add: getProp_map_of extractParamTypes_def extractParamTypesFrom_append)
qed


lemma getProp_Tag:
  assumes "n \<noteq> ''__proto__''"
  shows "getProp (fst (extractParamTypes [Tag n children])) =
     [n \<mapsto> ''FormatXMLElementFn<T>''] ++ getProp (fst (extractParamTypes children))"
proof -
  obtain sp si where sub: "extractParamTypesFrom children ([], []) = (sp, si)"
    by (cases "extractParamTypesFrom children ([], [])")
  have d: "distinct (map fst sp)"
    using plain_distinct [OF plain_extractParamTypes, of children] sub
    by (simp add: extractParamTypes_def)
  have d0: "distinct (map fst (setProp [] n ''FormatXMLElementFn<T>''))"
    by (rule plain_distinct [OF plain_setProp [OF plain_Nil]])
  show ?thesis
    using map_of_spread [OF d0 d] assms
    by (simp add: getProp_map_of extractParamTypes_def sub map_of_setProp_new)
qed


lemma getProp_Select:
  assumes "n \<noteq> ''__proto__''"
  shows "getProp (fst (extractParamTypes [Select n opts])) =
     foldl (++) [n \<mapsto> join '' | '' (map (\<lambda>label. [SQ] @ label @ [SQ]) (objectKeys opts))]
       (map (\<lambda>child. getProp (fst (extractParamTypes child))) (objectValues opts))"
  using fold_mergeChild [OF merges_all plain_setProp [OF plain_Nil], of "objectValues opts" n
      "join '' | '' (map (\<lambda>label. [SQ] @ label @ [SQ]) (objectKeys opts))" "[]"]
    assms
  by (simp add: getProp_map_of extractParamTypes_def map_of_setProp_new)

lemma getProp_leaf:
  assumes "n \<noteq> ''__proto__''"
  shows "getProp (fst (extractParamTypes [Argument n])) = [n \<mapsto> ''string'']"
    and "getProp (fst (extractParamTypes [Number n])) = [n \<mapsto> ''number'']"
    and "getProp (fst (extractParamTypes [Plural n opts])) = [n \<mapsto> ''number'']"
    and "getProp (fst (extractParamTypes [Date n])) = [n \<mapsto> ''Date | number'']"
    and "getProp (fst (extractParamTypes [Time n])) = [n \<mapsto> ''Date | number'']"
  using assms by (simp_all add: getProp_map_of extractParamTypes_def map_of_setProp_new)


text \<open>The name \<open>__proto__\<close> never gets a type.\<close>

lemma getProp_proto: "getProp (fst (extractParamTypes ast)) ''__proto__'' = None"
  using plain_no_proto [OF plain_extractParamTypes, of ast] by (simp add: getProp_def)


section \<open>The loops of the generator\<close>

lemma keyMessages_Nil: "keyMessages key [] = []"
  by (simp add: keyMessages_def)

lemma keyMessages_Cons:
  "keyMessages key (lang # rest) =
     (case getProp lang key of None \<Rightarrow> keyMessages key rest
      | Some t \<Rightarrow> messageOf t # keyMessages key rest)"
  by (simp add: keyMessages_def split: option.splits)

lemma readProp_Some: "getProp obj k = Some v \<Longrightarrow> readProp obj k = Own v"
  by (simp add: readProp_def)

lemma readProp_None:
  "getProp obj k = None \<Longrightarrow>
   readProp obj k = (if k \<in> set objectPrototypeNames then Inherited else Undefined)"
  by (simp add: readProp_def)

lemma readProp_Inherited:
  "readProp obj k = Inherited \<longleftrightarrow> getProp obj k = None \<and> k \<in> set objectPrototypeNames"
  by (simp add: readProp_def split: option.splits)

text \<open>
  The inner loop succeeds when the messages it meets parse and no language inherits the key; its
  result is then a fold over the parsed messages.
\<close>

lemma languagesLoop_Inr:
  assumes "map prs (keyMessages key ls) = map Inr asts"
    and "list_all (\<lambda>lang. readProp lang key \<noteq> Inherited) ls"
  shows "languagesLoop prs key ls (ps, ms, tags, imps) = Inr
     (fold (\<lambda>ast acc. spread acc (fst (extractParamTypes ast))) asts ps,
      fold (\<lambda>m acc. setAdd acc (quoteMessage m)) (keyMessages key ls) ms,
      tags \<or> list_ex extractHasTags asts,
      fold (\<lambda>ast acc. newSet (acc @ snd (extractParamTypes ast))) asts imps)"
  using assms
proof (induction ls arbitrary: ps ms tags imps asts)
  case Nil
  then show ?case by (simp add: keyMessages_Nil)
next
  case (Cons lang rest)
  from Cons.prems(2) have ni: "readProp lang key \<noteq> Inherited"
    and nr: "list_all (\<lambda>lang. readProp lang key \<noteq> Inherited) rest"
    by simp_all
  show ?case
  proof (cases "getProp lang key")
    case None
    with ni have u: "readProp lang key = Undefined"
      by (simp add: readProp_def split: if_splits)
    from Cons.prems(1) None have "map prs (keyMessages key rest) = map Inr asts"
      by (simp add: keyMessages_Cons)
    from Cons.IH [OF this nr] show ?thesis
      by (simp add: u None keyMessages_Cons)
  next
    case (Some t)
    with Cons.prems(1) obtain a asts' where asts: "asts = a # asts'"
      and a: "prs (messageOf t) = Inr a"
      and rest: "map prs (keyMessages key rest) = map Inr asts'"
      by (cases asts) (auto simp: keyMessages_Cons)
    show ?thesis
      using Cons.IH [OF rest nr]
      by (simp add: readProp_Some [OF Some] Some a asts keyMessages_Cons split: prod.splits)
  qed
qed

lemma languagesLoop_parsed:
  assumes "languagesLoop prs key ls st = Inr r"
  shows "(\<exists>asts. map prs (keyMessages key ls) = map Inr asts)
     \<and> list_all (\<lambda>lang. readProp lang key \<noteq> Inherited) ls"
  using assms
proof (induction ls arbitrary: st)
  case Nil
  then show ?case by (simp add: keyMessages_Nil)
next
  case (Cons lang rest)
  obtain ps ms tags imps where st: "st = (ps, ms, tags, imps)" by (cases st)
  show ?case
  proof (cases "getProp lang key")
    case None
    show ?thesis
    proof (cases "key \<in> set objectPrototypeNames")
      case True
      with None have "readProp lang key = Inherited" by (simp add: readProp_def)
      with Cons.prems show ?thesis by (simp add: st)
    next
      case False
      with None have u: "readProp lang key = Undefined" by (simp add: readProp_def)
      with Cons.prems have "languagesLoop prs key rest st = Inr r"
        by (simp add: st)
      from Cons.IH [OF this] show ?thesis
        by (simp add: keyMessages_Cons None u)
    qed
  next
    case (Some t)
    note own = readProp_Some [OF Some]
    show ?thesis
    proof (cases "prs (messageOf t)")
      case (Inl e)
      then show ?thesis using Cons.prems by (simp add: st own)
    next
      case (Inr a)
      from Cons.prems obtain st' where "languagesLoop prs key rest st' = Inr r"
        by (auto simp: st own Inr Let_def split: prod.splits)
      from Cons.IH [OF this] obtain asts' where
        "map prs (keyMessages key rest) = map Inr asts'"
        and nr: "list_all (\<lambda>lang. readProp lang key \<noteq> Inherited) rest"
        by blast
      then have "map prs (keyMessages key (lang # rest)) = map Inr (a # asts')"
        by (simp add: keyMessages_Cons Some Inr)
      then have ex: "\<exists>asts. map prs (keyMessages key (lang # rest)) = map Inr asts"
        by blast
      have "list_all (\<lambda>lang. readProp lang key \<noteq> Inherited) (lang # rest)"
        using nr by (simp add: own)
      with ex show ?thesis by (rule conjI)
    qed
  qed
qed

lemma languagesLoop_result:
  assumes "languagesLoop prs key ls (ps, ms, tags, imps) = Inr r"
    and "map prs (keyMessages key ls) = map Inr asts"
  shows "r =
     (fold (\<lambda>ast acc. spread acc (fst (extractParamTypes ast))) asts ps,
      fold (\<lambda>m acc. setAdd acc (quoteMessage m)) (keyMessages key ls) ms,
      tags \<or> list_ex extractHasTags asts,
      fold (\<lambda>ast acc. newSet (acc @ snd (extractParamTypes ast))) asts imps)"
  using languagesLoop_Inr [OF assms(2), of ps ms tags imps] languagesLoop_parsed [OF assms(1)]
    assms(1)
  by simp

text \<open>A language that inherits the key ends the loop with the error of the parser.\<close>

lemma languagesLoop_inherited:
  assumes "key \<in> set objectPrototypeNames"
    and "list_all (\<lambda>lang. getProp lang key = None) ls" and "ls \<noteq> []"
  shows "languagesLoop prs key ls (ps, ms, tags, imps) = Inl parseUndefined"
proof -
  from assms(3) obtain lang rest where ls: "ls = lang # rest" by (cases ls) auto
  with assms(2) have "getProp lang key = None" by simp
  with assms(1) have "readProp lang key = Inherited" by (simp add: readProp_def)
  then show ?thesis by (simp add: ls)
qed

lemma keysLoop_frame:
  assumes "keysLoop prs langs ks (types, imps) = Inr (types', imps')" and "k \<notin> set ks"
  shows "getProp types' k = getProp types k"
  using assms
proof (induction ks arbitrary: types imps)
  case Nil
  then show ?case by simp
next
  case (Cons key rest)
  from Cons.prems(1) obtain ps ms tags i1 where
    ll: "languagesLoop prs key (objectValues langs) ([], [], False, imps) = Inr (ps, ms, tags, i1)"
    by (auto split: sum.splits)
  let ?info = "\<lparr> params = ps, message = join '' | '' ms,
      returnType = (if tags then ''NonNullable<ReactNode>'' else ''string''), hasTags = tags \<rparr>"
  have "keysLoop prs langs rest (defineProp types key ?info, i1) = Inr (types', imps')"
    using Cons.prems(1) by (simp add: ll)
  from Cons.IH [OF this] Cons.prems(2) show ?case
    by (simp add: getProp_def map_of_defineProp)
qed

lemma keysLoop_entry:
  assumes "keysLoop prs langs ks (types, imps) = Inr (types', imps')" and "key \<in> set ks"
  shows "\<exists>ps ms tags i0 i1.
      languagesLoop prs key (objectValues langs) ([], [], False, i0) = Inr (ps, ms, tags, i1) \<and>
      getProp types' key = Some \<lparr> params = ps, message = join '' | '' ms,
        returnType = (if tags then ''NonNullable<ReactNode>'' else ''string''), hasTags = tags \<rparr>"
  using assms
proof (induction ks arbitrary: types imps)
  case Nil
  then show ?case by simp
next
  case (Cons k rest)
  from Cons.prems(1) obtain ps ms tags i1 where
    ll: "languagesLoop prs k (objectValues langs) ([], [], False, imps) = Inr (ps, ms, tags, i1)"
    by (auto split: sum.splits)
  let ?info = "\<lparr> params = ps, message = join '' | '' ms,
      returnType = (if tags then ''NonNullable<ReactNode>'' else ''string''), hasTags = tags \<rparr>"
  have rest: "keysLoop prs langs rest (defineProp types k ?info, i1) = Inr (types', imps')"
    using Cons.prems(1) by (simp add: ll)
  show ?case
  proof (cases "key \<in> set rest")
    case True
    from Cons.IH [OF rest True] show ?thesis .
  next
    case False
    with Cons.prems(2) have "key = k" by simp
    moreover have "getProp types' k = Some ?info"
      using keysLoop_frame [OF rest] False \<open>key = k\<close>
      by (simp add: getProp_def map_of_defineProp)
    ultimately show ?thesis using ll by blast
  qed
qed

lemma keysLoop_distinct:
  assumes "keysLoop prs langs ks (types, imps) = Inr (types', imps')"
    and "distinct (map fst types)"
  shows "distinct (map fst types')"
  using assms
proof (induction ks arbitrary: types imps)
  case Nil
  then show ?case by simp
next
  case (Cons key rest)
  from Cons.prems(1) obtain ps ms tags i1 where
    ll: "languagesLoop prs key (objectValues langs) ([], [], False, imps) = Inr (ps, ms, tags, i1)"
    by (auto split: sum.splits)
  let ?info = "\<lparr> params = ps, message = join '' | '' ms,
      returnType = (if tags then ''NonNullable<ReactNode>'' else ''string''), hasTags = tags \<rparr>"
  have "keysLoop prs langs rest (defineProp types key ?info, i1) = Inr (types', imps')"
    using Cons.prems(1) by (simp add: ll)
  from Cons.IH [OF this distinct_defineProp [OF Cons.prems(2)]] show ?case .
qed

lemma extractParamTypesFrom_literals:
  "list_all isLiteralElement ast \<Longrightarrow> extractParamTypesFrom ast st = st"
proof (induction ast)
  case Nil
  then show ?case by simp
next
  case (Cons e ast)
  obtain p i where st: "st = (p, i)" by (cases st)
  from Cons.prems obtain s where "e = Literal s" by (cases e) auto
  with Cons show ?case by (simp add: st)
qed

lemma extractParamTypes_literals:
  "list_all isLiteralElement ast \<Longrightarrow> extractParamTypes ast = ([], [])"
  by (simp add: extractParamTypes_def extractParamTypesFrom_literals)

lemma extractHasTags_literals:
  "list_all isLiteralElement ast \<Longrightarrow> \<not> extractHasTags ast"
proof (induction ast)
  case Nil
  then show ?case by simp
next
  case (Cons e ast)
  from Cons.prems obtain s where "e = Literal s" by (cases e) auto
  with Cons show ?case by simp
qed

lemma objectEntries_Nil: "objectEntries [] = []"
  by (simp add: objectEntries_def)

lemma objectKeys_Nil: "objectKeys [] = []"
  by (simp add: objectKeys_def objectEntries_Nil)

lemma spread_Nil_Nil: "spread [] [] = []"
  by (simp add: spread_def copyProps_def objectEntries_Nil)

lemma fold_spread_literals:
  "list_all (list_all isLiteralElement) asts \<Longrightarrow>
   fold (\<lambda>ast acc. spread acc (fst (extractParamTypes ast))) asts [] = []"
  by (induction asts) (simp_all add: extractParamTypes_literals spread_Nil_Nil)

lemma list_ex_hasTags_literals:
  "list_all (list_all isLiteralElement) asts \<Longrightarrow> \<not> list_ex extractHasTags asts"
  by (induction asts) (simp_all add: extractHasTags_literals)

lemma fold_setAdd_newSet:
  "fold (\<lambda>m acc. setAdd acc (f m)) ms [] = newSet (map f ms)"
  by (simp add: newSet_def fold_map comp_def)

lemma distinct_setAdd: "distinct s \<Longrightarrow> distinct (setAdd s x)"
  by (simp add: setAdd_def)

lemma distinct_fold_setAdd: "distinct s \<Longrightarrow> distinct (fold (\<lambda>x s. setAdd s x) xs s)"
  by (induction xs arbitrary: s) (simp_all add: distinct_setAdd)

lemma distinct_newSet: "distinct (newSet xs)"
  by (simp add: newSet_def distinct_fold_setAdd)

section \<open>The accessors in the module text\<close>

lemma encodeBackslash_Cons:
  "encodeBackslash (c # cs) = (if c = BS then [BS, BS] else [c]) @ encodeBackslash cs"
  by (simp add: encodeBackslash_def)

lemma encodeBackslash_Nil: "encodeBackslash [] = []"
  by (simp add: encodeBackslash_def)

lemma encodeBackslash_inject: "encodeBackslash xs = encodeBackslash ys \<Longrightarrow> xs = ys"
proof (induction xs arbitrary: ys)
  case Nil
  show ?case
  proof (cases ys)
    case Nil
    then show ?thesis by simp
  next
    case (Cons y ys')
    with Nil show ?thesis
      by (cases "y = BS") (simp_all add: encodeBackslash_Nil encodeBackslash_Cons)
  qed
next
  case (Cons x xs)
  show ?case
  proof (cases ys)
    case Nil
    with Cons.prems show ?thesis
      by (cases "x = BS") (simp_all add: encodeBackslash_Nil encodeBackslash_Cons)
  next
    case (Cons y ys')
    from Cons.prems Cons have eq: "(if x = BS then [BS, BS] else [x]) @ encodeBackslash xs =
        (if y = BS then [BS, BS] else [y]) @ encodeBackslash ys'"
      by (simp add: encodeBackslash_Cons)
    have xy: "x = y"
    proof (cases "x = BS")
      case True
      with eq show ?thesis by (cases "y = BS") simp_all
    next
      case False
      with eq show ?thesis by (cases "y = BS") simp_all
    qed
    with eq have "encodeBackslash xs = encodeBackslash ys'"
      by (cases "y = BS") simp_all
    from Cons.IH [OF this] xy Cons show ?thesis by simp
  qed
qed

lemma encodeBackslash_proto: "encodeBackslash key = ''__proto__'' \<longleftrightarrow> key = ''__proto__''"
proof
  have p: "encodeBackslash ''__proto__'' = ''__proto__''"
    by (simp add: encodeBackslash_def)
  assume "encodeBackslash key = ''__proto__''"
  then have "encodeBackslash key = encodeBackslash ''__proto__''"
    by (simp only: p)
  then show "key = ''__proto__''"
    by (rule encodeBackslash_inject)
next
  assume "key = ''__proto__''"
  then show "encodeBackslash key = ''__proto__''"
    by (simp add: encodeBackslash_def)
qed

lemma plain_fold_setProp:
  "plain target \<Longrightarrow> plain (fold (\<lambda>(k, v) acc. setProp acc k v) xs target)"
  by (induction xs arbitrary: target) (auto simp: plain_setProp)

lemma map_of_fold_setProp:
  assumes "plain target" and "k \<noteq> ''__proto__''"
  shows "map_of (fold (\<lambda>(k, v) acc. setProp acc k v) xs target) k =
     (map_of target ++ map_of (rev xs)) k"
  using assms(1)
proof (induction xs arbitrary: target)
  case Nil
  then show ?case by simp
next
  case (Cons p xs)
  obtain k' v' where p: "p = (k', v')" by (cases p)
  have step: "map_of (setProp target k' v') k = (map_of target ++ map_of [(k', v')]) k"
  proof (cases "k' = ''__proto__''")
    case True
    then show ?thesis
      using Cons.prems assms(2) by (simp add: setProp_proto map_add_def)
  next
    case False
    then show ?thesis
      by (simp add: setProp_other map_of_defineProp map_add_def)
  qed
  have "map_of (fold (\<lambda>(k, v) acc. setProp acc k v) (p # xs) target) k =
      (map_of (setProp target k' v') ++ map_of (rev xs)) k"
    using Cons.IH [OF plain_setProp [OF Cons.prems], of k' v'] by (simp add: p)
  also have "\<dots> = (map_of target ++ map_of (rev (p # xs))) k"
    using step by (simp add: p map_add_def split: option.splits)
  finally show ?case .
qed

text \<open>
  The type object has an accessor under the encoded name of every key but \<open>__proto__\<close>, and
  never one under \<open>__proto__\<close>.
\<close>

lemma translationsTypeOf_lookup:
  assumes "distinct (map fst types)" and "key \<noteq> ''__proto__''"
  shows "getProp (translationsTypeOf types) (encodeBackslash key) =
     map_option translationFunctionString (getProp types key)"
proof -
  let ?g = "\<lambda>(k, info). (encodeBackslash k, translationFunctionString info)"
  have f: "fold (\<lambda>(key, info) acc. setProp acc (encodeBackslash key) (translationFunctionString info)) ts acc0
      = fold (\<lambda>(k, v) acc. setProp acc k v) (map ?g ts) acc0" for ts :: "TranslationTypeInfo jsobject" and acc0
    by (induction ts arbitrary: acc0) (auto split: prod.splits)
  have keys: "map fst (map ?g types) = map encodeBackslash (map fst types)"
    by (induction types) (auto split: prod.splits)
  have inj: "inj encodeBackslash"
    by (rule injI) (rule encodeBackslash_inject)
  have "inj_on encodeBackslash (set (map fst types))"
    using inj by (rule inj_on_subset) simp
  with assms(1) have "distinct (map encodeBackslash (map fst types))"
    by (subst distinct_map) simp
  then have d: "distinct (map fst (map ?g types))"
    by (simp only: keys)
  have look: "map_of (map ?g ts) (encodeBackslash key) =
      map_option translationFunctionString (map_of ts key)" for ts :: "TranslationTypeInfo jsobject"
    by (induction ts) (auto dest: encodeBackslash_inject)
  have ne: "encodeBackslash key \<noteq> ''__proto__''"
    using assms(2) by (simp add: encodeBackslash_proto)
  show ?thesis
    using d map_of_fold_setProp [OF plain_Nil ne, of "map ?g types"]
    by (simp add: translationsTypeOf_def f map_of_rev_distinct getProp_def look)
qed

lemma plain_translationsTypeOf: "plain (translationsTypeOf types)"
proof -
  let ?g = "\<lambda>(k, info). (encodeBackslash k, translationFunctionString info)"
  have f: "fold (\<lambda>(key, info) acc. setProp acc (encodeBackslash key) (translationFunctionString info)) ts acc0
      = fold (\<lambda>(k, v) acc. setProp acc k v) (map ?g ts) acc0" for ts :: "TranslationTypeInfo jsobject" and acc0
    by (induction ts arbitrary: acc0) (auto split: prod.splits)
  show ?thesis
    by (simp add: translationsTypeOf_def f plain_fold_setProp plain_Nil)
qed

lemma translationsTypeOf_proto: "getProp (translationsTypeOf types) ''__proto__'' = None"
  using plain_no_proto [OF plain_translationsTypeOf, of types] by (simp add: getProp_def)

lemma fold_append_concat: "fold (\<lambda>x acc. acc @ h x) xs acc = acc @ concat (map h xs)"
  by (induction xs arbitrary: acc) simp_all

text \<open>Every property of an object of code fragments is written into the text of its type.\<close>

lemma serialiseObjectToType_entry:
  assumes "(k, fragment) \<in> set obj"
  shows "\<exists>pre post. serialiseObjectToType (stringValues obj) =
     pre @ [SQ] @ encodeWithinSingleQuotes k @ [SQ] @ '': '' @ fragment @ '','' @ post"
proof -
  let ?h = "\<lambda>(key, val). case val of
               JObject obj \<Rightarrow>
                 [SQ] @ encodeWithinSingleQuotes key @ [SQ] @ '': ''
                   @ serialiseObjectToType obj @ '',''
             | JString fragment \<Rightarrow>
                 [SQ] @ encodeWithinSingleQuotes key @ [SQ] @ '': '' @ fragment @ '',''"
  have step: "(\<lambda>(key, val) result.
             case val of
               JObject obj \<Rightarrow>
                 result @ [SQ] @ encodeWithinSingleQuotes key @ [SQ] @ '': ''
                   @ serialiseObjectToType obj @ '',''
             | JString fragment \<Rightarrow>
                 result @ [SQ] @ encodeWithinSingleQuotes key @ [SQ] @ '': '' @ fragment @ '','')
      = (\<lambda>x acc. acc @ ?h x)"
    by (auto simp: fun_eq_iff split: jsvalue.splits)
  have body: "serialiseObjectToType v = ''{ '' @ concat (map ?h (objectEntries v)) @ '' }''" for v
    by (subst serialiseObjectToType.simps) (simp only: step fold_append_concat append_Nil)
  from assms have "(k, JString fragment) \<in> set (objectEntries (stringValues obj))"
    by (auto simp: set_objectEntries stringValues_def)
  then obtain xs ys where "objectEntries (stringValues obj) = xs @ (k, JString fragment) # ys"
    by (auto dest: split_list)
  then have "serialiseObjectToType (stringValues obj) =
      (''{ '' @ concat (map ?h xs)) @ [SQ] @ encodeWithinSingleQuotes k @ [SQ] @ '': ''
        @ fragment @ '','' @ (concat (map ?h ys) @ '' }'')"
    by (simp add: body)
  then show ?thesis by blast
qed

lemma serialiseTranslationRuntime_entry:
  assumes "getProp (translationsTypeOf types) k = Some fragment"
  shows "\<exists>pre post. serialiseTranslationRuntime e types imps loadedTranslation =
     pre @ [SQ] @ encodeWithinSingleQuotes k @ [SQ] @ '': '' @ fragment @ '','' @ post"
proof -
  from assms have "(k, fragment) \<in> set (translationsTypeOf types)"
    by (simp add: getProp_def map_of_SomeD)
  from serialiseObjectToType_entry [OF this] obtain pre post where
    t: "serialiseObjectToType (stringValues (translationsTypeOf types)) =
     pre @ [SQ] @ encodeWithinSingleQuotes k @ [SQ] @ '': '' @ fragment @ '','' @ post"
    by blast
  obtain a b where "serialiseTranslationRuntime e types imps loadedTranslation =
      a @ serialiseObjectToType (stringValues (translationsTypeOf types)) @ b"
    unfolding serialiseTranslationRuntime_def Let_def
    by (metis append.assoc)
  then have "serialiseTranslationRuntime e types imps loadedTranslation =
      (a @ pre) @ [SQ] @ encodeWithinSingleQuotes k @ [SQ] @ '': '' @ fragment @ '','' @ (post @ b)"
    by (simp add: t)
  then show ?thesis by blast
qed

section \<open>Later writes override earlier ones\<close>

lemma fold_spread_map_of:
  assumes "distinct (map fst ps)"
  shows "distinct (map fst (fold (\<lambda>ast acc. spread acc (fst (extractParamTypes ast))) asts ps)) \<and>
     getProp (fold (\<lambda>ast acc. spread acc (fst (extractParamTypes ast))) asts ps) =
       foldl (++) (getProp ps) (map (\<lambda>ast. getProp (fst (extractParamTypes ast))) asts)"
  using assms
proof (induction asts arbitrary: ps)
  case Nil
  then show ?case by simp
next
  case (Cons a asts)
  have d: "distinct (map fst (fst (extractParamTypes a)))"
    by (rule plain_distinct [OF plain_extractParamTypes])
  have "getProp (spread ps (fst (extractParamTypes a))) =
      getProp ps ++ getProp (fst (extractParamTypes a))"
    using map_of_spread [OF Cons.prems d] by (simp add: getProp_map_of)
  with Cons.IH [OF distinct_spread, of ps "fst (extractParamTypes a)"] show ?case
    by simp
qed

text \<open>The markup flag of a key is the disjunction over the languages that translate it.\<close>

lemma hasTags_any_language:
  assumes "keysLoop prs langs ks ([], []) = Inr (types, imps)"
    and "key \<in> set ks"
    and "map prs (keyMessages key (objectValues langs)) = map Inr asts"
  shows "\<exists>info. getProp types key = Some info
     \<and> hasTags info = list_ex extractHasTags asts
     \<and> returnType info =
         (if list_ex extractHasTags asts then ''NonNullable<ReactNode>'' else ''string'')"
proof -
  from keysLoop_entry [OF assms(1,2)] obtain ps ms tags i0 i1 where
    ll: "languagesLoop prs key (objectValues langs) ([], [], False, i0) = Inr (ps, ms, tags, i1)"
    and entry: "getProp types key = Some \<lparr> params = ps, message = join '' | '' ms,
        returnType = (if tags then ''NonNullable<ReactNode>'' else ''string''), hasTags = tags \<rparr>"
    by blast
  from languagesLoop_result [OF ll assms(3)]
  have "tags = list_ex extractHasTags asts" by simp
  with entry show ?thesis by simp
qed

lemma sel_last:
  assumes ne: "objectValues opts \<noteq> []" and n: "n \<noteq> ''__proto__''"
  shows "getProp (fst (extractParamTypes [Select n opts])) k =
         (case getProp (fst (extractParamTypes (last (objectValues opts)))) k of
            Some t \<Rightarrow> Some t
          | None \<Rightarrow>
              foldl (++)
                [n \<mapsto> join '' | '' (map (\<lambda>label. [SQ] @ label @ [SQ]) (objectKeys opts))]
                (map (\<lambda>child. getProp (fst (extractParamTypes child)))
                   (butlast (objectValues opts))) k)"
proof -
  let ?u = "join '' | '' (map (\<lambda>label. [SQ] @ label @ [SQ]) (objectKeys opts))"
  let ?f = "\<lambda>child. getProp (fst (extractParamTypes child))"
  have split: "objectValues opts = butlast (objectValues opts) @ [last (objectValues opts)]"
    using ne by simp
  have "foldl (++) [n \<mapsto> ?u] (map ?f (objectValues opts)) =
      foldl (++) [n \<mapsto> ?u] (map ?f (butlast (objectValues opts) @ [last (objectValues opts)]))"
    using split by simp
  also have "\<dots> = foldl (++) [n \<mapsto> ?u] (map ?f (butlast (objectValues opts)))
      ++ ?f (last (objectValues opts))"
    by simp
  finally have "getProp (fst (extractParamTypes [Select n opts])) =
      foldl (++) [n \<mapsto> ?u] (map ?f (butlast (objectValues opts)))
      ++ ?f (last (objectValues opts))"
    by (simp only: getProp_Select [OF n])
  then show ?thesis
    by (simp only: map_add_def)
qed

lemma last_language_wins:
  assumes "keysLoop prs langs ks ([], []) = Inr (types, imps)"
    and "key \<in> set ks"
    and km: "map prs (keyMessages key (objectValues langs)) = map Inr (asts @ [ast])"
  shows "\<exists>info. getProp types key = Some info
            \<and> getProp (params info) k =
                (case getProp (fst (extractParamTypes ast)) k of
                   Some t \<Rightarrow> Some t
                 | None \<Rightarrow>
                     foldl (++) Map.empty
                       (map (\<lambda>a. getProp (fst (extractParamTypes a))) asts) k)"
proof -
  from keysLoop_entry [OF assms(1,2)] obtain ps ms tags i0 i1 where
    ll: "languagesLoop prs key (objectValues langs) ([], [], False, i0) = Inr (ps, ms, tags, i1)"
    and entry: "getProp types key = Some \<lparr> params = ps, message = join '' | '' ms,
        returnType = (if tags then ''NonNullable<ReactNode>'' else ''string''), hasTags = tags \<rparr>"
    by blast
  from languagesLoop_result [OF ll km]
  have ps: "ps = fold (\<lambda>ast acc. spread acc (fst (extractParamTypes ast))) (asts @ [ast]) []"
    by simp
  have "getProp ps = foldl (++) (getProp [])
      (map (\<lambda>a. getProp (fst (extractParamTypes a))) (asts @ [ast]))"
    unfolding ps using fold_spread_map_of [of "[]" "asts @ [ast]"] by simp
  also have "getProp [] = (Map.empty :: string \<rightharpoonup> string)"
    by (simp add: getProp_map_of)
  finally have "getProp ps = foldl (++) Map.empty
      (map (\<lambda>a. getProp (fst (extractParamTypes a))) asts) ++ getProp (fst (extractParamTypes ast))"
    by simp
  then have "getProp ps k =
      (case getProp (fst (extractParamTypes ast)) k of
         Some t \<Rightarrow> Some t
       | None \<Rightarrow> foldl (++) Map.empty (map (\<lambda>a. getProp (fst (extractParamTypes a))) asts) k)"
    by (simp only: map_add_def)
  with entry show ?thesis by simp
qed

lemma later_sibling_wins:
  "getProp (fst (extractParamTypes (xs @ ys))) k =
     (case getProp (fst (extractParamTypes ys)) k of
        Some t \<Rightarrow> Some t
      | None \<Rightarrow> getProp (fst (extractParamTypes xs)) k)"
  by (simp only: getProp_append map_add_def)

lemma tag_child_wins:
  assumes "n \<noteq> ''__proto__''"
  shows "getProp (fst (extractParamTypes [Tag n children])) k =
     (case getProp (fst (extractParamTypes children)) k of
        Some t \<Rightarrow> Some t
      | None \<Rightarrow> if k = n then Some ''FormatXMLElementFn<T>'' else None)"
proof -
  have "getProp (fst (extractParamTypes [Tag n children])) k =
     (case getProp (fst (extractParamTypes children)) k of
        None \<Rightarrow> [n \<mapsto> ''FormatXMLElementFn<T>''] k
      | Some t \<Rightarrow> Some t)"
    by (simp only: getProp_Tag [OF assms] map_add_def)
  then show ?thesis
    by (cases "getProp (fst (extractParamTypes children)) k") simp_all
qed

section \<open>Writing only what changed\<close>

lemma writeIfChanged_cases:
  "writeIfChanged e w p c =
     (if files w (fsPath e p) = Some c then Inr w else writeFile e w p c)"
  by (cases "files w (fsPath e p)") (simp_all add: writeIfChanged_def readFile_def)

lemma writeFile_Inr:
  assumes "writeFile e w p c = Inr w1"
  shows "w1 = w\<lparr> files := (files w)(fsPath e p \<mapsto> utf8 e c),
                 writes := writes w @ [(fsPath e p, c)] \<rparr>"
  using assms by (simp add: writeFile_def split: if_splits)

lemma writeIfChanged_again:
  assumes "writeIfChanged e w p c = Inr w1" and "utf8 e c = c"
  shows "writeIfChanged e w1 p c = Inr w1"
proof (cases "files w (fsPath e p) = Some c")
  case True
  with assms(1) have "w1 = w" by (simp add: writeIfChanged_cases)
  with True show ?thesis by (simp add: writeIfChanged_cases)
next
  case False
  with assms(1) have "writeFile e w p c = Inr w1" by (simp add: writeIfChanged_cases)
  from writeFile_Inr [OF this] assms(2) have "files w1 (fsPath e p) = Some c" by simp
  then show ?thesis by (simp add: writeIfChanged_cases)
qed

text \<open>
  A generation that completes has formatted the text of the module and handed the result to the
  write step. Of the world the generator reads and changes the output file only.
\<close>

lemma generateRuntime_Inr:
  assumes "generateRuntime e w lt = Inr w1"
  shows "\<exists>types imps cfg decl.
      keysLoop (parse e) (languages lt) (keys lt) ([], []) = Inr (types, imps)
      \<and> resolveConfig e (filePath lt) = Inr cfg
      \<and> format e (serialiseTranslationRuntime e types imps lt) cfg = Inr decl
      \<and> writeIfChanged e w (getTSFileFromDevLanguageFile e (filePath lt)) decl = Inr w1
      \<and> (\<forall>w'. generateRuntime e w' lt =
            writeIfChanged e w' (getTSFileFromDevLanguageFile e (filePath lt)) decl)"
  using assms
  by (auto simp: generateRuntime_def split: sum.splits prod.splits)

lemma generateRuntime_keysLoop:
  assumes "keysLoop (parse e) (languages lt) (keys lt) ([], []) = Inr (types, imps)"
  shows "generateRuntime e w lt =
     (case resolveConfig e (filePath lt) of
        Inl err \<Rightarrow> Inl err
      | Inr cfg \<Rightarrow>
          (case format e (serialiseTranslationRuntime e types imps lt) cfg of
             Inl err \<Rightarrow> Inl err
           | Inr decl \<Rightarrow>
               writeIfChanged e w (getTSFileFromDevLanguageFile e (filePath lt)) decl))"
  by (simp add: generateRuntime_def assms)

lemma generateRuntime_example:
  "generateRuntime exampleEnv w exampleUnit =
     writeIfChanged exampleEnv w ''/app/a.vocab/translations.json.ts''
       (serialiseTranslationRuntime exampleEnv [] [] exampleUnit)"
  by (simp add: generateRuntime_def exampleEnv_def exampleUnit_def)

lemma fsPath_example:
  "fsPath exampleEnv (CHR ''/'' # path) = CHR ''/'' # path"
  "fsPath elsewhereEnv (CHR ''/'' # path) = CHR ''/'' # path"
  by (simp_all add: fsPath_def exampleEnv_def elsewhereEnv_def)

lemma pathDirname_example:
  "pathDirname exampleEnv ''/app/a.vocab/translations.json.ts'' = ''/app/a.vocab''"
  "pathDirname exampleEnv ''/app/a.vocab/translations.json'' = ''/app/a.vocab''"
  "pathDirname exampleEnv ''/srv/a.vocab/translations.json'' = ''/srv/a.vocab''"
  by (simp_all add: exampleEnv_def)

section \<open>What the scanner reads back\<close>

lemma encodeWithinSingleQuotes_Nil: "encodeWithinSingleQuotes [] = []"
  by (simp add: encodeWithinSingleQuotes_def)

lemma encodeWithinSingleQuotes_Cons:
  "encodeWithinSingleQuotes (c # cs) =
     (if c = SQ then [BS, SQ] else [c]) @ encodeWithinSingleQuotes cs"
  by (simp add: encodeWithinSingleQuotes_def)

lemma readStringBody_plain:
  assumes "c \<noteq> SQ" and "c \<noteq> BS" and "c \<noteq> LF" and "c \<noteq> CHR 0x0D" and "xs \<noteq> []"
  shows "readStringBody (c # xs) = map_option (\<lambda>s. c # s) (readStringBody xs)"
proof -
  from assms(5) obtain d rest where "xs = d # rest" by (cases xs) auto
  with assms(1-4) show ?thesis by simp
qed

lemma readStringBody_escape:
  "readStringBody (BS # d # xs) =
     (case escapeValue d of
        None \<Rightarrow> None
      | Some v \<Rightarrow> map_option (\<lambda>s. v @ s) (readStringBody xs))"
  by simp

lemma escapeValue_quote: "escapeValue SQ = Some [SQ]"
  by (simp add: escapeValue_def isDigit_def)

lemma escapeValue_backslash: "escapeValue BS = Some [BS]"
  by (simp add: escapeValue_def isDigit_def)

text \<open>A message without backslashes and line breaks is read back as it was.\<close>

lemma quoted_message_read_back:
  assumes "BS \<notin> set m" and "LF \<notin> set m" and "CHR 0x0D \<notin> set m"
  shows "readSingleQuoted (quoteMessage m) = Some m"
proof -
  have "readStringBody (encodeWithinSingleQuotes m @ [SQ]) = Some m"
    using assms
  proof (induction m)
    case Nil
    then show ?case by (simp add: encodeWithinSingleQuotes_Nil)
  next
    case (Cons c cs)
    then have IH: "readStringBody (encodeWithinSingleQuotes cs @ [SQ]) = Some cs"
      by simp
    show ?case
    proof (cases "c = SQ")
      case True
      have "encodeWithinSingleQuotes (c # cs) @ [SQ] =
          BS # SQ # (encodeWithinSingleQuotes cs @ [SQ])"
        using True by (simp add: encodeWithinSingleQuotes_Cons)
      then show ?thesis
        using True by (simp only: readStringBody_escape escapeValue_quote option.case IH
            option.map append_Cons append_Nil)
    next
      case False
      have "readStringBody (c # (encodeWithinSingleQuotes cs @ [SQ])) =
          map_option (\<lambda>s. c # s) (readStringBody (encodeWithinSingleQuotes cs @ [SQ]))"
        using False Cons.prems by (intro readStringBody_plain) auto
      with False show ?thesis
        by (simp add: encodeWithinSingleQuotes_Cons IH)
    qed
  qed
  then show ?thesis
    by (simp add: readSingleQuoted_def quoteMessage_def)
qed

text \<open>A key goes through both encoders and is read back as it was.\<close>

lemma encoded_key_read_back:
  assumes "LF \<notin> set k" and "CHR 0x0D \<notin> set k"
  shows "readSingleQuoted ([SQ] @ encodeWithinSingleQuotes (encodeBackslash k) @ [SQ]) = Some k"
proof -
  have "readStringBody (encodeWithinSingleQuotes (encodeBackslash k) @ [SQ]) = Some k"
    using assms
  proof (induction k)
    case Nil
    then show ?case by (simp add: encodeWithinSingleQuotes_Nil encodeBackslash_Nil)
  next
    case (Cons c cs)
    then have IH: "readStringBody (encodeWithinSingleQuotes (encodeBackslash cs) @ [SQ]) = Some cs"
      by simp
    let ?rest = "encodeWithinSingleQuotes (encodeBackslash cs) @ [SQ]"
    consider "c = BS" | "c = SQ" | "c \<noteq> BS" "c \<noteq> SQ" by blast
    then show ?case
    proof cases
      case 1
      have "encodeWithinSingleQuotes (encodeBackslash (c # cs)) @ [SQ] = BS # BS # ?rest"
        using 1 by (simp add: encodeBackslash_Cons encodeWithinSingleQuotes_Cons)
      then show ?thesis
        using 1 by (simp only: readStringBody_escape escapeValue_backslash option.case IH option.map
            append_Cons append_Nil)
    next
      case 2
      have "encodeWithinSingleQuotes (encodeBackslash (c # cs)) @ [SQ] = BS # SQ # ?rest"
        using 2 by (simp add: encodeBackslash_Cons encodeWithinSingleQuotes_Cons)
      then show ?thesis
        using 2 by (simp only: readStringBody_escape escapeValue_quote option.case IH option.map
            append_Cons append_Nil)
    next
      case 3
      have e: "encodeWithinSingleQuotes (encodeBackslash (c # cs)) @ [SQ] = c # ?rest"
        using 3 by (simp add: encodeBackslash_Cons encodeWithinSingleQuotes_Cons)
      have "readStringBody (c # ?rest) = map_option (\<lambda>s. c # s) (readStringBody ?rest)"
        using 3 Cons.prems by (intro readStringBody_plain) auto
      then show ?thesis
        by (simp add: e IH)
    qed
  qed
  then show ?thesis
    by (simp add: readSingleQuoted_def)
qed

section \<open>The environment of the examples\<close>

lemma exampleEnv_fields:
  "parse exampleEnv = (\<lambda>m. Inr [Literal m])"
  "resolveConfig exampleEnv = (\<lambda>path. Inr ())"
  "format exampleEnv = (\<lambda>source config. Inr source)"
  "getTSFileFromDevLanguageFile exampleEnv = (\<lambda>path. path @ ''.ts'')"
  "isDevLanguageFile exampleEnv = (\<lambda>path. path = ''a.vocab/translations.json'')"
  "isAltLanguageFile exampleEnv = (\<lambda>path. path = ''a.vocab/fr.translations.json'')"
  "getDevLanguageFileFromAltLanguageFile exampleEnv = (\<lambda>path. ''/app/a.vocab/translations.json'')"
  "isTranslationDirectory exampleEnv = (\<lambda>path. path = ''a.vocab'')"
  "devTranslationFileName exampleEnv = ''translations.json''"
  "pathJoin exampleEnv = (\<lambda>dir name. dir @ ''/'' @ name)"
  "cwd exampleEnv = ''/app''"
  "processCwd exampleEnv = ''/app''"
  "utf8 exampleEnv = (\<lambda>contents. contents)"
  by (simp_all add: exampleEnv_def)

lemma elsewhereEnv_fields:
  "isDevLanguageFile elsewhereEnv = isDevLanguageFile exampleEnv"
  "isAltLanguageFile elsewhereEnv = isAltLanguageFile exampleEnv"
  "isTranslationDirectory elsewhereEnv = isTranslationDirectory exampleEnv"
  "devTranslationFileName elsewhereEnv = devTranslationFileName exampleEnv"
  "pathJoin elsewhereEnv = pathJoin exampleEnv"
  "pathResolve elsewhereEnv = pathResolve exampleEnv"
  "pathDirname elsewhereEnv = pathDirname exampleEnv"
  "cwd elsewhereEnv = ''/app''"
  "processCwd elsewhereEnv = ''/srv''"
  "utf8 elsewhereEnv = utf8 exampleEnv"
  by (simp_all add: elsewhereEnv_def exampleEnv_def)

lemma fsPath_relative:
  "fsPath exampleEnv ''a.vocab/translations.json'' = ''/app/a.vocab/translations.json''"
  "fsPath elsewhereEnv ''a.vocab/translations.json'' = ''/srv/a.vocab/translations.json''"
  by (simp_all add: fsPath_def exampleEnv_def elsewhereEnv_def)

lemma strictEnv_fields:
  "parse strictEnv = parse exampleEnv"
  "resolveConfig strictEnv = resolveConfig exampleEnv"
  "format strictEnv = (\<lambda>source config.
     if includesText source ''() => ,'' then Inl (FormatError ''SyntaxError: Type expected.'')
     else Inr source)"
  "getTSFileFromDevLanguageFile strictEnv = getTSFileFromDevLanguageFile exampleEnv"
  "pathDirname strictEnv = pathDirname exampleEnv"
  "utf8 strictEnv = utf8 exampleEnv"
  "fsPath strictEnv = fsPath exampleEnv"
  by (simp_all add: strictEnv_def exampleEnv_def fsPath_def fun_eq_iff)

lemma startsWith_append: "startsWith (fragment @ rest) fragment"
  by (induction fragment) simp_all

lemma includesText_append: "includesText (pre @ fragment @ post) fragment"
proof (induction pre)
  case Nil
  show ?case
  proof (cases "fragment @ post")
    case Nil
    then show ?thesis by simp
  next
    case (Cons a list)
    have "startsWith (fragment @ post) fragment" by (rule startsWith_append)
    then show ?thesis by (simp add: Cons)
  qed
next
  case (Cons c pre)
  then show ?case by simp
qed

lemma helloUnit_fields:
  "filePath helloUnit = ''/app/a.vocab/translations.json''"
  "keys helloUnit = [''hello'']"
  "languages helloUnit =
     [(''en'', [(''hello'', TranslationData ''Hello'')]),
      (''fr'', [(''hello'', TranslationData ''Bonjour'')]),
      (''de'', [(''hello'', TranslationData ''Hello'')])]"
  by (simp_all add: helloUnit_def)

lemma orphanUnit_fields:
  "filePath orphanUnit = ''/app/a.vocab/translations.json''"
  "keys orphanUnit = [''hello'', ''orphan'']"
  "languages orphanUnit = [(''en'', [(''hello'', TranslationData ''Hello'')]), (''fr'', [])]"
  by (simp_all add: orphanUnit_def)

section \<open>The units of the examples\<close>

lemma helloUnit_values:
  "objectValues (languages helloUnit) =
     [[(''hello'', TranslationData ''Hello'')], [(''hello'', TranslationData ''Bonjour'')],
      [(''hello'', TranslationData ''Hello'')]]"
  by (simp add: helloUnit_fields objectValues_def objectEntries_def isArrayIndex_def isDigit_def)

lemma orphanUnit_values:
  "objectValues (languages orphanUnit) = [[(''hello'', TranslationData ''Hello'')], []]"
  by (simp add: orphanUnit_fields objectValues_def objectEntries_def isArrayIndex_def isDigit_def)

lemma helloUnit_loop:
  "keysLoop (parse strictEnv) (languages helloUnit) (keys helloUnit) ([], [])
     = Inr (helloTypes, [])"
  by (simp add: helloUnit_values helloUnit_fields(2) strictEnv_fields exampleEnv_fields getProp_def
      readProp_def extractParamTypes_def spread_Nil_Nil newSet_def setAdd_def quoteMessage_def
      encodeWithinSingleQuotes_def)

lemma orphanUnit_loop:
  "keysLoop (parse strictEnv) (languages orphanUnit) (keys orphanUnit) ([], [])
     = Inr (orphanTypes, [])"
  by (simp add: orphanUnit_values orphanUnit_fields(2) strictEnv_fields exampleEnv_fields
      getProp_def readProp_def objectPrototypeNames_def extractParamTypes_def spread_Nil_Nil
      newSet_def setAdd_def quoteMessage_def encodeWithinSingleQuotes_def)

text \<open>The module of the first unit has no arrow type without a result, and is written.\<close>

lemma helloUnit_accepted:
  "\<not> includesText (serialiseTranslationRuntime strictEnv helloTypes [] helloUnit) ''() => ,''"
  by (simp add: serialiseTranslationRuntime_def translationsTypeOf_def setProp_def getProp_def
      encodeBackslash_def translationFunctionString_def objectKeys_def objectEntries_def
      isArrayIndex_def isDigit_def banner_def stringValues_def serialiseObjectToType.simps
      encodeWithinSingleQuotes_def helloUnit_def strictEnv_def exampleEnv_def)

lemma generateRuntime_strict_hello:
  "generateRuntime strictEnv emptyWorld helloUnit =
     Inr (emptyWorld\<lparr> files := [''/app/a.vocab/translations.json.ts'' \<mapsto>
              serialiseTranslationRuntime strictEnv helloTypes [] helloUnit],
            writes := [(''/app/a.vocab/translations.json.ts'',
              serialiseTranslationRuntime strictEnv helloTypes [] helloUnit)] \<rparr>)"
  using helloUnit_accepted
  by (simp add: generateRuntime_keysLoop [OF helloUnit_loop] strictEnv_fields exampleEnv_fields
      helloUnit_fields(1) writeIfChanged_cases writeFile_def fsPath_example pathDirname_example
      emptyWorld_def)

text \<open>The module of the second unit has one, for the key that no language translates.\<close>

lemma orphanUnit_entry:
  "\<exists>pre post. serialiseTranslationRuntime e orphanTypes [] orphanUnit =
     pre @ [SQ] @ ''orphan'' @ [SQ] @ '': () => ,'' @ post"
proof -
  have "getProp (translationsTypeOf orphanTypes) ''orphan'' = Some ''() => ''"
    by (simp add: translationsTypeOf_def setProp_def getProp_def encodeBackslash_def
        translationFunctionString_def objectKeys_Nil)
  from serialiseTranslationRuntime_entry [OF this, of e "[]" orphanUnit] show ?thesis
    by (simp add: encodeWithinSingleQuotes_def)
qed

lemma orphanUnit_rejected:
  "includesText (serialiseTranslationRuntime e orphanTypes [] orphanUnit) ''() => ,''"
proof -
  from orphanUnit_entry [of e] obtain pre post where
    "serialiseTranslationRuntime e orphanTypes [] orphanUnit =
       pre @ [SQ] @ ''orphan'' @ [SQ] @ '': () => ,'' @ post"
    by blast
  then have "serialiseTranslationRuntime e orphanTypes [] orphanUnit =
      (pre @ [SQ] @ ''orphan'' @ [SQ] @ '': '') @ ''() => ,'' @ post"
    by simp
  then show ?thesis
    by (simp only: includesText_append)
qed

lemma generateRuntime_strict_orphan:
  "generateRuntime strictEnv w orphanUnit = Inl (FormatError ''SyntaxError: Type expected.'')"
  using orphanUnit_rejected [of strictEnv]
  by (simp add: generateRuntime_keysLoop [OF orphanUnit_loop] strictEnv_fields exampleEnv_fields)

section \<open>Claims\<close>




text \<open>
  \<^bold>\<open>C2\<close>. The claim: the inferencer goes into every branch of a plural and of a select, so that a
  placeholder nested in a branch is in the returned map. The loop goes into the options of a
  select only: for \<open>{count, plural, one {{name} has one item} other {{name} has # items}}\<close> it
  returns \<open>count\<close> alone, and \<open>name\<close> has no type; the same options under a select give
  \<open>name\<close> its type.
\<close>

theorem plural_branches_not_inferred:
  "extractParamTypes
     [Plural ''count''
        [(''one'', [Argument ''name'', Literal '' has one item'']),
         (''other'', [Argument ''name'', Literal '' has '', Pound, Literal '' items''])]]
     = ([(''count'', ''number'')], [])
   \<and> getProp (fst (extractParamTypes
        [Plural ''count''
           [(''one'', [Argument ''name'', Literal '' has one item'']),
            (''other'', [Argument ''name'', Literal '' has '', Pound, Literal '' items''])]]))
        ''name'' = None
   \<and> getProp (fst (extractParamTypes
        [Select ''count''
           [(''one'', [Argument ''name'', Literal '' has one item'']),
            (''other'', [Argument ''name'', Literal '' has '', Pound, Literal '' items''])]]))
        ''name'' = Some ''string''"
  by (simp add: extractParamTypes_def getProp_def setProp_def objectValues_def objectKeys_def
      objectEntries_def isArrayIndex_def isDigit_def spread_def copyProps_def newSet_def)

text \<open>
  \<^bold>\<open>C3\<close>. The claim: a tag placeholder at any depth of any language's message sets the markup
  flag of the key and makes its return type \<open>NonNullable<ReactNode>\<close>. The check goes into the
  options of a select, never into those of a plural: for
  \<open>{n, plural, one {<b>one</b> item} other {<b>#</b> items}}\<close> the flag stays false and the return
  type recorded for the key is \<open>string\<close>; the same options under a select set the flag.
\<close>

theorem tag_in_plural_branch_not_detected:
  "extractHasTags
     [Plural ''n''
        [(''one'', [Tag ''b'' [Literal ''one''], Literal '' item'']),
         (''other'', [Tag ''b'' [Pound], Literal '' items''])]] = False
   \<and> keysLoop
       (\<lambda>m. Inr [Plural ''n''
                    [(''one'', [Tag ''b'' [Literal ''one''], Literal '' item'']),
                     (''other'', [Tag ''b'' [Pound], Literal '' items''])]])
       [(''en'', [(''items'',
            TranslationData ''{n, plural, one {<b>one</b> item} other {<b>#</b> items}}'')])]
       [''items''] ([], [])
     = Inr ([(''items'',
          \<lparr> params = [(''n'', ''number'')],
            message =
              [SQ] @ ''{n, plural, one {<b>one</b> item} other {<b>#</b> items}}'' @ [SQ],
            returnType = ''string'', hasTags = False \<rparr>)], [])
   \<and> extractHasTags
     [Select ''n''
        [(''one'', [Tag ''b'' [Literal ''one''], Literal '' item'']),
         (''other'', [Tag ''b'' [Pound], Literal '' items''])]] = True"
  by (simp add: extractParamTypes_def getProp_def setProp_def readProp_def objectValues_def
      objectKeys_def objectEntries_def isArrayIndex_def isDigit_def spread_def copyProps_def
      newSet_def setAdd_def quoteMessage_def encodeWithinSingleQuotes_def)

text \<open>
  \<^bold>\<open>C4\<close>. The claim: the write step writes if and only if reading the output file fails or the
  fresh text differs from what the file holds, so that two invocations in succession on an
  unchanged unit perform exactly one write. On the code the first half holds as stated: the step
  calls \<open>fs.writeFile\<close> in exactly these cases, and a write that succeeds is one entry of the
  log and leaves the text, as utf-8, in the file. The second half holds in this form. A
  generation that completes has handed the text the formatter made of the module to the write
  step, on the path of the output; it has written exactly when the output could not be read or
  differed from that text; and when the text is read back from a file as it was written, a
  second invocation leaves the world as it found it. Two invocations thus perform at most one
  write, and none when the output was already up to date.
\<close>

theorem write_only_if_changed:
  "writeIfChanged e w p c =
     (if (\<exists>err. readFile e w p = Inl err)
          \<or> (\<exists>existing. readFile e w p = Inr existing \<and> existing \<noteq> c)
      then writeFile e w p c
      else Inr w)
   \<and> (writeFile e w p c = Inr w2 \<longrightarrow>
        writes w2 = writes w @ [(fsPath e p, c)] \<and> readFile e w2 p = Inr (utf8 e c))
   \<and> (generateRuntime e w lt = Inr w1 \<longrightarrow>
        (\<exists>types imps cfg decl.
            keysLoop (parse e) (languages lt) (keys lt) ([], []) = Inr (types, imps)
          \<and> resolveConfig e (filePath lt) = Inr cfg
          \<and> format e (serialiseTranslationRuntime e types imps lt) cfg = Inr decl
          \<and> (\<forall>w'. generateRuntime e w' lt =
                writeIfChanged e w' (getTSFileFromDevLanguageFile e (filePath lt)) decl)
          \<and> writes w1 =
              (if readFile e w (getTSFileFromDevLanguageFile e (filePath lt)) = Inr decl
               then writes w
               else writes w
                 @ [(fsPath e (getTSFileFromDevLanguageFile e (filePath lt)), decl)])
          \<and> (utf8 e decl = decl \<longrightarrow> generateRuntime e w1 lt = Inr w1)))"
proof (intro conjI impI)
  show "writeIfChanged e w p c =
     (if (\<exists>err. readFile e w p = Inl err)
          \<or> (\<exists>existing. readFile e w p = Inr existing \<and> existing \<noteq> c)
      then writeFile e w p c
      else Inr w)"
    by (cases "files w (fsPath e p)") (simp_all add: writeIfChanged_def readFile_def)
next
  assume "writeFile e w p c = Inr w2"
  from writeFile_Inr [OF this]
  show "writes w2 = writes w @ [(fsPath e p, c)]" and "readFile e w2 p = Inr (utf8 e c)"
    by (simp_all add: readFile_def)
next
  assume g: "generateRuntime e w lt = Inr w1"
  let ?out = "getTSFileFromDevLanguageFile e (filePath lt)"
  from generateRuntime_Inr [OF g] obtain types imps cfg decl where
    loop: "keysLoop (parse e) (languages lt) (keys lt) ([], []) = Inr (types, imps)"
    and cfg: "resolveConfig e (filePath lt) = Inr cfg"
    and decl: "format e (serialiseTranslationRuntime e types imps lt) cfg = Inr decl"
    and w1: "writeIfChanged e w ?out decl = Inr w1"
    and gen: "\<forall>w'. generateRuntime e w' lt = writeIfChanged e w' ?out decl"
    by blast
  have log: "writes w1 =
      (if readFile e w ?out = Inr decl then writes w else writes w @ [(fsPath e ?out, decl)])"
  proof (cases "files w (fsPath e ?out) = Some decl")
    case True
    with w1 have "w1 = w" by (simp add: writeIfChanged_cases)
    with True show ?thesis by (simp add: readFile_def)
  next
    case False
    with w1 have "writeFile e w ?out decl = Inr w1" by (simp add: writeIfChanged_cases)
    from writeFile_Inr [OF this] False show ?thesis
      by (auto simp: readFile_def split: option.splits)
  qed
  have again: "utf8 e decl = decl \<longrightarrow> generateRuntime e w1 lt = Inr w1"
    using writeIfChanged_again [OF w1] gen by simp
  show "\<exists>types imps cfg decl.
            keysLoop (parse e) (languages lt) (keys lt) ([], []) = Inr (types, imps)
          \<and> resolveConfig e (filePath lt) = Inr cfg
          \<and> format e (serialiseTranslationRuntime e types imps lt) cfg = Inr decl
          \<and> (\<forall>w'. generateRuntime e w' lt = writeIfChanged e w' ?out decl)
          \<and> writes w1 =
              (if readFile e w ?out = Inr decl then writes w
               else writes w @ [(fsPath e ?out, decl)])
          \<and> (utf8 e decl = decl \<longrightarrow> generateRuntime e w1 lt = Inr w1)"
    using loop cfg decl gen log again by blast
qed

theorem write_only_if_changed_witness:
  "writeFile exampleEnv emptyWorld ''/app/a.vocab/translations.json.ts''
       (serialiseTranslationRuntime exampleEnv [] [] exampleUnit) =
     Inr (emptyWorld\<lparr> files := [''/app/a.vocab/translations.json.ts'' \<mapsto>
                                  serialiseTranslationRuntime exampleEnv [] [] exampleUnit],
                      writes := [(''/app/a.vocab/translations.json.ts'',
                                  serialiseTranslationRuntime exampleEnv [] [] exampleUnit)] \<rparr>)
   \<and> readFile exampleEnv
       (emptyWorld\<lparr> files := [''/app/a.vocab/translations.json.ts'' \<mapsto>
                                  serialiseTranslationRuntime exampleEnv [] [] exampleUnit],
                      writes := [(''/app/a.vocab/translations.json.ts'',
                                  serialiseTranslationRuntime exampleEnv [] [] exampleUnit)] \<rparr>)
       ''/app/a.vocab/translations.json.ts'' =
     Inr (serialiseTranslationRuntime exampleEnv [] [] exampleUnit)
   \<and> generateRuntime exampleEnv emptyWorld exampleUnit =
     Inr (emptyWorld\<lparr> files := [''/app/a.vocab/translations.json.ts'' \<mapsto>
                                  serialiseTranslationRuntime exampleEnv [] [] exampleUnit],
                      writes := [(''/app/a.vocab/translations.json.ts'',
                                  serialiseTranslationRuntime exampleEnv [] [] exampleUnit)] \<rparr>)
   \<and> utf8 exampleEnv (serialiseTranslationRuntime exampleEnv [] [] exampleUnit) =
       serialiseTranslationRuntime exampleEnv [] [] exampleUnit
   \<and> generateRuntime exampleEnv
       (emptyWorld\<lparr> files := [''/app/a.vocab/translations.json.ts'' \<mapsto>
                                  serialiseTranslationRuntime exampleEnv [] [] exampleUnit],
                      writes := [(''/app/a.vocab/translations.json.ts'',
                                  serialiseTranslationRuntime exampleEnv [] [] exampleUnit)] \<rparr>)
       exampleUnit =
     Inr (emptyWorld\<lparr> files := [''/app/a.vocab/translations.json.ts'' \<mapsto>
                                  serialiseTranslationRuntime exampleEnv [] [] exampleUnit],
                      writes := [(''/app/a.vocab/translations.json.ts'',
                                  serialiseTranslationRuntime exampleEnv [] [] exampleUnit)] \<rparr>)"
proof -
  let ?out = "''/app/a.vocab/translations.json.ts''"
  let ?text = "serialiseTranslationRuntime exampleEnv [] [] exampleUnit"
  let ?w1 = "emptyWorld\<lparr> files := [?out \<mapsto> ?text], writes := [(?out, ?text)] \<rparr>"
  have wr: "writeFile exampleEnv emptyWorld ?out ?text = Inr ?w1"
    by (simp add: writeFile_def fsPath_example pathDirname_example exampleEnv_fields
        emptyWorld_def)
  have h: "generateRuntime exampleEnv emptyWorld exampleUnit = Inr ?w1"
    by (simp add: generateRuntime_example writeIfChanged_cases writeFile_def fsPath_example
        pathDirname_example exampleEnv_fields emptyWorld_def)
  have u: "utf8 exampleEnv ?text = ?text"
    by (simp add: exampleEnv_fields)
  have loop: "keysLoop (parse exampleEnv) (languages exampleUnit) (keys exampleUnit) ([], [])
      = Inr ([], [])"
    by (simp add: exampleUnit_def)
  note inst = write_only_if_changed [where e = exampleEnv and w = emptyWorld
      and lt = exampleUnit and ?w1.0 = ?w1 and p = ?out and c = ?text and ?w2.0 = ?w1]
  from inst wr have "readFile exampleEnv ?w1 ?out = Inr (utf8 exampleEnv ?text)"
    by blast
  then have rd: "readFile exampleEnv ?w1 ?out = Inr ?text"
    by (simp only: u)
  from inst h
  obtain types imps cfg decl where
    l: "keysLoop (parse exampleEnv) (languages exampleUnit) (keys exampleUnit) ([], [])
      = Inr (types, imps)"
    and d: "format exampleEnv (serialiseTranslationRuntime exampleEnv types imps exampleUnit) cfg
      = Inr decl"
    and a: "utf8 exampleEnv decl = decl \<longrightarrow> generateRuntime exampleEnv ?w1 exampleUnit = Inr ?w1"
    by blast
  from l loop have "types = []" and "imps = []" by simp_all
  with d have "decl = ?text" by (simp add: exampleEnv_fields)
  with a u have again: "generateRuntime exampleEnv ?w1 exampleUnit = Inr ?w1" by simp
  show ?thesis
    by (rule conjI [OF wr conjI [OF rd conjI [OF h conjI [OF u again]]]])
qed

text \<open>
  Two invocations in succession on a unit whose output is up to date: both succeed and nothing
  has been written, where the claim counts one write.
\<close>

theorem exactly_one_write_counterexample:
  "(case generateRuntime exampleEnv upToDateWorld exampleUnit of
      Inl err \<Rightarrow> None
    | Inr w1 \<Rightarrow>
        (case generateRuntime exampleEnv w1 exampleUnit of
           Inl err \<Rightarrow> None
         | Inr w2 \<Rightarrow> Some (writes w2))) = Some []"
proof -
  have "generateRuntime exampleEnv upToDateWorld exampleUnit = Inr upToDateWorld"
    by (simp add: generateRuntime_example writeIfChanged_cases fsPath_example)
      (simp add: upToDateWorld_def)
  moreover have "writes upToDateWorld = []"
    by (simp add: upToDateWorld_def)
  ultimately show ?thesis by simp
qed

text \<open>
  \<^bold>\<open>C5\<close>. The claim: a name inferred more than once keeps the type written last, and nothing is
  reported. No type is kept for the name \<open>__proto__\<close>, whatever is written for it: the select
  \<open>{__proto__, select, a {{__proto__}} other {{__proto__, number}}}\<close> gives the empty parameter
  object. For every other name the claim holds: among siblings the later element wins; the
  children of a tag win over the tag; the last option of a select wins over the options before it
  and over the select; and in the parameter map recorded for a key the last language that
  translates the key wins over the languages before it.
\<close>

theorem later_write_wins:
  "getProp (fst (extractParamTypes (xs @ ys))) k =
     (case getProp (fst (extractParamTypes ys)) k of
        Some t \<Rightarrow> Some t
      | None \<Rightarrow> getProp (fst (extractParamTypes xs)) k)
   \<and> (n \<noteq> ''__proto__'' \<longrightarrow>
       getProp (fst (extractParamTypes [Tag n children])) k =
         (case getProp (fst (extractParamTypes children)) k of
            Some t \<Rightarrow> Some t
          | None \<Rightarrow> if k = n then Some ''FormatXMLElementFn<T>'' else None))
   \<and> (n \<noteq> ''__proto__'' \<and> objectValues opts \<noteq> [] \<longrightarrow>
       getProp (fst (extractParamTypes [Select n opts])) k =
         (case getProp (fst (extractParamTypes (last (objectValues opts)))) k of
            Some t \<Rightarrow> Some t
          | None \<Rightarrow>
              foldl (++)
                [n \<mapsto> join '' | '' (map (\<lambda>label. [SQ] @ label @ [SQ]) (objectKeys opts))]
                (map (\<lambda>child. getProp (fst (extractParamTypes child)))
                   (butlast (objectValues opts))) k))
   \<and> (keysLoop prs langs ks ([], []) = Inr (types, imps)
        \<and> key \<in> set ks
        \<and> map prs (keyMessages key (objectValues langs)) = map Inr (asts @ [ast])
      \<longrightarrow> (\<exists>info. getProp types key = Some info
            \<and> getProp (params info) k =
                (case getProp (fst (extractParamTypes ast)) k of
                   Some t \<Rightarrow> Some t
                 | None \<Rightarrow>
                     foldl (++) Map.empty
                       (map (\<lambda>a. getProp (fst (extractParamTypes a))) asts) k)))"
  using later_sibling_wins [of xs ys k] tag_child_wins [of n children k]
    sel_last [of opts n k] last_language_wins [of prs langs ks types imps key asts ast k]
  by blast

theorem later_write_wins_witness:
  "''g'' \<noteq> ''__proto__''
   \<and> objectValues [(''a'', [Argument ''n'']), (''b'', [Number ''n''])] \<noteq> []
   \<and> getProp (fst (extractParamTypes
          [Select ''g'' [(''a'', [Argument ''n'']), (''b'', [Number ''n''])]])) ''n''
       = Some ''number''
   \<and> getProp (fst (extractParamTypes [Tag ''g'' [Argument ''g'']])) ''g'' = Some ''string''
   \<and> keysLoop (\<lambda>m. if m = ''{n}'' then Inr [Argument ''n''] else Inr [Number ''n''])
        [(''en'', [(''x'', TranslationData ''{n}'')]),
         (''fr'', [(''x'', TranslationData ''{n, number}'')])]
        [''x''] ([], [])
       = Inr ([(''x'',
                \<lparr> params = [(''n'', ''number'')],
                  message = [SQ] @ ''{n}'' @ [SQ] @ '' | '' @ [SQ] @ ''{n, number}'' @ [SQ],
                  returnType = ''string'', hasTags = False \<rparr>)], [])
   \<and> ''x'' \<in> set [''x'']
   \<and> map (\<lambda>m. if m = ''{n}'' then Inr [Argument ''n'']
                else (Inr [Number ''n''] :: error + MessageFormatElement list))
        (keyMessages ''x''
          (objectValues [(''en'', [(''x'', TranslationData ''{n}'')]),
             (''fr'', [(''x'', TranslationData ''{n, number}'')])]))
       = map Inr ([[Argument ''n'']] @ [[Number ''n'']])
   \<and> (\<exists>info.
         getProp [(''x'',
                \<lparr> params = [(''n'', ''number'')],
                  message = [SQ] @ ''{n}'' @ [SQ] @ '' | '' @ [SQ] @ ''{n, number}'' @ [SQ],
                  returnType = ''string'', hasTags = False \<rparr>)] ''x'' = Some info
         \<and> getProp (params info) ''n'' = Some ''number'')"
proof -
  let ?prs = "\<lambda>m. if m = ''{n}'' then Inr [Argument ''n'']
                else (Inr [Number ''n''] :: error + MessageFormatElement list)"
  let ?langs = "[(''en'', [(''x'', TranslationData ''{n}'')]),
         (''fr'', [(''x'', TranslationData ''{n, number}'')])]"
  let ?types = "[(''x'',
                \<lparr> params = [(''n'', ''number'')],
                  message = [SQ] @ ''{n}'' @ [SQ] @ '' | '' @ [SQ] @ ''{n, number}'' @ [SQ],
                  returnType = ''string'', hasTags = False \<rparr>)]"
  let ?opts = "[(''a'', [Argument ''n'']), (''b'', [Number ''n''])]"
  have ng: "''g'' \<noteq> ''__proto__''" by simp
  have ovals: "objectValues ?opts = map snd ?opts"
    by (simp add: objectValues_def objectEntries_def isArrayIndex_def isDigit_def)
  have vals: "objectValues ?langs = map snd ?langs"
    by (simp add: objectValues_def objectEntries_def isArrayIndex_def isDigit_def)
  have num: "getProp (fst (extractParamTypes [Number ''n''])) ''n'' = Some ''number''"
    by (simp add: getProp_leaf)
  have arg: "getProp (fst (extractParamTypes [Argument ''g''])) ''g'' = Some ''string''"
    by (simp add: getProp_leaf)
  have h0: "objectValues ?opts \<noteq> []"
    by (simp add: ovals)
  have h1: "keysLoop ?prs ?langs [''x''] ([], []) = Inr (?types, [])"
    by (simp add: vals getProp_def readProp_def setProp_def extractParamTypes_def spread_def
        copyProps_def objectEntries_def isArrayIndex_def isDigit_def newSet_def setAdd_def
        quoteMessage_def encodeWithinSingleQuotes_def)
  have h2: "''x'' \<in> set [''x'']" by simp
  have h3: "map ?prs (keyMessages ''x'' (objectValues ?langs))
      = map Inr ([[Argument ''n'']] @ [[Number ''n'']])"
    by (simp add: vals keyMessages_def getProp_def List.map_filter_simps)
  note inst = later_write_wins [where opts = ?opts and n = "''g''" and k = "''n''"
      and prs = ?prs and langs = ?langs and ks = "[''x'']" and types = ?types and imps = "[]"
      and key = "''x''" and asts = "[[Argument ''n'']]" and ast = "[Number ''n'']"]
  note inst2 = later_write_wins [where n = "''g''" and k = "''g''"
      and children = "[Argument ''g'']"]
  from inst ng h0 have sel: "getProp (fst (extractParamTypes [Select ''g'' ?opts])) ''n''
      = Some ''number''"
    by (simp add: ovals num)
  from inst2 ng have tag: "getProp (fst (extractParamTypes [Tag ''g'' [Argument ''g'']])) ''g''
      = Some ''string''"
    by (simp add: arg)
  from inst h1 h2 h3 have loc: "\<exists>info. getProp ?types ''x'' = Some info
      \<and> getProp (params info) ''n'' = Some ''number''"
    by (simp add: num)
  show ?thesis
    by (rule conjI [OF ng conjI [OF h0 conjI [OF sel conjI [OF tag conjI [OF h1
        conjI [OF h2 conjI [OF h3 loc]]]]]]])
qed

text \<open>
  The placeholder \<open>__proto__\<close> is inferred three times in the select below, last as a number,
  and twice in the message \<open>{__proto__}{__proto__, number}\<close>: the parameter object is empty
  both times, where the claim keeps the type \<open>number\<close>.
\<close>

theorem proto_name_not_kept_counterexample:
  "extractParamTypes
     [Select ''__proto__''
        [(''a'', [Argument ''__proto__'']), (''other'', [Number ''__proto__''])]] = ([], [])
   \<and> getProp (fst (extractParamTypes
        [Select ''__proto__''
           [(''a'', [Argument ''__proto__'']), (''other'', [Number ''__proto__''])]]))
        ''__proto__'' = None
   \<and> getProp (fst (extractParamTypes [Number ''__proto__''])) ''__proto__'' = None
   \<and> extractParamTypes [Argument ''__proto__'', Number ''__proto__''] = ([], [])"
  by (simp add: extractParamTypes_def getProp_def setProp_def objectValues_def objectKeys_def
      objectEntries_def isArrayIndex_def isDigit_def spread_def copyProps_def newSet_def)

text \<open>
  \<^bold>\<open>C6\<close>. The claim: a message with a single quote or a backslash, put between single quotes
  by the encoder and read back from the generated text, is the message again. The generator
  quotes a message with \<open>encodeWithinSingleQuotes\<close> alone: a backslash stays as it is and is read
  back as the start of an escape. The message that is one backslash gives a literal that never
  closes; \<open>C:\temp\<close> is read back with a tab. A key goes through \<open>encodeBackslash\<close> first and
  is read back as it was.
\<close>

theorem backslash_message_not_read_back:
  "quoteMessage [BS] = [SQ, BS, SQ]
   \<and> readSingleQuoted (quoteMessage [BS]) = None
   \<and> readSingleQuoted (quoteMessage (''C:'' @ [BS] @ ''temp'')) =
       Some (''C:'' @ [CHR 0x09] @ ''emp'')
   \<and> readSingleQuoted ([SQ] @ encodeWithinSingleQuotes (encodeBackslash [BS]) @ [SQ]) =
       Some [BS]"
  by (simp add: quoteMessage_def encodeWithinSingleQuotes_def encodeBackslash_def
      readSingleQuoted_def escapeValue_def isDigit_def)

text \<open>
  \<^bold>\<open>C7\<close>. The claim: for every key whose messages are literal text in all languages, the
  parameter map is empty and the accessor generated for the key is a function without arguments
  that returns the union of the distinct messages as single-quoted literals. The accessors are
  assigned to a plain object, so the key \<open>__proto__\<close> gets none. For every other key the claim
  holds in this form. When every message of the key, in every language that translates it,
  parses to literal text only, a generation that completes has recorded for the key an empty
  parameter map and no markup; the text of the module that was formatted and handed to the write
  step holds the entry of the key, its name between single quotes, then \<open>() => \<close> and the union
  of the distinct messages of the key, each encoded and between single quotes, in the order they
  were first met; and a member of the union made from a message without backslash and line
  break reads back as that message.
\<close>

theorem literal_only_key:
  assumes "generateRuntime e w lt = Inr w1"
    and "keysLoop (parse e) (languages lt) (keys lt) ([], []) = Inr (types, imps)"
    and "key \<in> set (keys lt)"
    and "key \<noteq> ''__proto__''"
    and "map (parse e) (keyMessages key (objectValues (languages lt))) = map Inr asts"
    and "list_all (list_all isLiteralElement) asts"
    and "messageUnion =
       join '' | '' (newSet (map quoteMessage (keyMessages key (objectValues (languages lt)))))"
  shows "(\<exists>info. getProp types key = Some info
            \<and> params info = [] \<and> hasTags info = False \<and> message info = messageUnion)
     \<and> getProp (translationsTypeOf types) (encodeBackslash key) = Some (''() => '' @ messageUnion)
     \<and> (\<exists>pre post. serialiseTranslationRuntime e types imps lt =
           pre @ [SQ] @ encodeWithinSingleQuotes (encodeBackslash key) @ [SQ]
             @ '': () => '' @ messageUnion @ '','' @ post)
     \<and> (\<exists>cfg decl. resolveConfig e (filePath lt) = Inr cfg
           \<and> format e (serialiseTranslationRuntime e types imps lt) cfg = Inr decl
           \<and> writeIfChanged e w (getTSFileFromDevLanguageFile e (filePath lt)) decl = Inr w1)
     \<and> distinct (newSet (map quoteMessage (keyMessages key (objectValues (languages lt)))))
     \<and> set (newSet (map quoteMessage (keyMessages key (objectValues (languages lt)))))
         = quoteMessage ` set (keyMessages key (objectValues (languages lt)))
     \<and> (\<forall>m \<in> set (keyMessages key (objectValues (languages lt))).
           BS \<notin> set m \<and> LF \<notin> set m \<and> CHR 0x0D \<notin> set m
           \<longrightarrow> readSingleQuoted (quoteMessage m) = Some m)"
proof -
  let ?msgs = "keyMessages key (objectValues (languages lt))"
  from keysLoop_entry [OF assms(2,3)] obtain ps ms tags i0 i1 where
    ll: "languagesLoop (parse e) key (objectValues (languages lt)) ([], [], False, i0)
      = Inr (ps, ms, tags, i1)"
    and entry: "getProp types key = Some \<lparr> params = ps, message = join '' | '' ms,
        returnType = (if tags then ''NonNullable<ReactNode>'' else ''string''), hasTags = tags \<rparr>"
    by blast
  from languagesLoop_result [OF ll assms(5)]
  have ps: "ps = []" and ms: "ms = newSet (map quoteMessage ?msgs)" and tags: "tags = False"
    using assms(6)
    by (simp_all add: fold_spread_literals fold_setAdd_newSet list_ex_hasTags_literals)
  have info: "\<exists>info. getProp types key = Some info
      \<and> params info = [] \<and> hasTags info = False \<and> message info = messageUnion"
    using entry by (simp add: ps ms tags assms(7))
  have d: "distinct (map fst types)"
    using keysLoop_distinct [OF assms(2)] by simp
  have look: "getProp (translationsTypeOf types) (encodeBackslash key)
      = Some (''() => '' @ messageUnion)"
    using entry translationsTypeOf_lookup [OF d assms(4)]
    by (simp add: ps ms assms(7) translationFunctionString_def objectKeys_Nil)
  from serialiseTranslationRuntime_entry [OF look, of e imps lt]
  have entryText: "\<exists>pre post. serialiseTranslationRuntime e types imps lt =
      pre @ [SQ] @ encodeWithinSingleQuotes (encodeBackslash key) @ [SQ]
        @ '': () => '' @ messageUnion @ '','' @ post"
    by simp
  from generateRuntime_Inr [OF assms(1)] assms(2)
  have written: "\<exists>cfg decl. resolveConfig e (filePath lt) = Inr cfg
      \<and> format e (serialiseTranslationRuntime e types imps lt) cfg = Inr decl
      \<and> writeIfChanged e w (getTSFileFromDevLanguageFile e (filePath lt)) decl = Inr w1"
    by auto
  have dist: "distinct (newSet (map quoteMessage ?msgs))"
    by (rule distinct_newSet)
  have members: "set (newSet (map quoteMessage ?msgs)) = quoteMessage ` set ?msgs"
    by (simp add: set_newSet)
  have readBack: "\<forall>m \<in> set ?msgs. BS \<notin> set m \<and> LF \<notin> set m \<and> CHR 0x0D \<notin> set m
      \<longrightarrow> readSingleQuoted (quoteMessage m) = Some m"
    by (simp add: quoted_message_read_back)
  show ?thesis
    by (rule conjI [OF info conjI [OF look conjI [OF entryText conjI [OF written
        conjI [OF dist conjI [OF members readBack]]]]]])
qed

theorem literal_only_key_witness:
  "generateRuntime strictEnv emptyWorld helloUnit =
     Inr (emptyWorld\<lparr> files := [''/app/a.vocab/translations.json.ts'' \<mapsto>
              serialiseTranslationRuntime strictEnv helloTypes [] helloUnit],
            writes := [(''/app/a.vocab/translations.json.ts'',
              serialiseTranslationRuntime strictEnv helloTypes [] helloUnit)] \<rparr>)
   \<and> keysLoop (parse strictEnv) (languages helloUnit) (keys helloUnit) ([], [])
     = Inr (helloTypes, [])
   \<and> ''hello'' \<in> set (keys helloUnit)
   \<and> ''hello'' \<noteq> ''__proto__''
   \<and> map (parse strictEnv) (keyMessages ''hello'' (objectValues (languages helloUnit)))
       = map Inr [[Literal ''Hello''], [Literal ''Bonjour''], [Literal ''Hello'']]
   \<and> list_all (list_all isLiteralElement)
        [[Literal ''Hello''], [Literal ''Bonjour''], [Literal ''Hello'']]
   \<and> getProp (translationsTypeOf helloTypes) ''hello''
       = Some (''() => '' @ [SQ] @ ''Hello'' @ [SQ] @ '' | '' @ [SQ] @ ''Bonjour'' @ [SQ])
   \<and> (\<exists>pre post.
         serialiseTranslationRuntime strictEnv helloTypes [] helloUnit =
         pre @ [SQ] @ ''hello'' @ [SQ] @ '': () => '' @ [SQ] @ ''Hello'' @ [SQ] @ '' | ''
           @ [SQ] @ ''Bonjour'' @ [SQ] @ '','' @ post)
   \<and> readSingleQuoted (quoteMessage ''Bonjour'') = Some ''Bonjour''"
proof -
  let ?text = "serialiseTranslationRuntime strictEnv helloTypes [] helloUnit"
  let ?asts = "[[Literal ''Hello''], [Literal ''Bonjour''], [Literal ''Hello'']]"
  let ?union = "join '' | ''
      (newSet (map quoteMessage (keyMessages ''hello'' (objectValues (languages helloUnit)))))"
  have km: "keyMessages ''hello'' (objectValues (languages helloUnit))
      = [''Hello'', ''Bonjour'', ''Hello'']"
    by (simp add: helloUnit_values keyMessages_def getProp_def List.map_filter_simps)
  have un: "?union = [SQ] @ ''Hello'' @ [SQ] @ '' | '' @ [SQ] @ ''Bonjour'' @ [SQ]"
    by (simp add: km newSet_def setAdd_def quoteMessage_def encodeWithinSingleQuotes_def)
  note h0 = generateRuntime_strict_hello
  note h1 = helloUnit_loop
  have h2: "''hello'' \<in> set (keys helloUnit)"
    by (simp add: helloUnit_fields)
  have h3: "''hello'' \<noteq> ''__proto__''" by simp
  have h4: "map (parse strictEnv) (keyMessages ''hello'' (objectValues (languages helloUnit)))
      = map Inr ?asts"
    by (simp add: km strictEnv_fields exampleEnv_fields)
  have h5: "list_all (list_all isLiteralElement) ?asts" by simp
  note inst = literal_only_key [OF h0 h1 h2 h3 h4 h5 refl]
  have enc: "encodeBackslash ''hello'' = ''hello''"
    "encodeWithinSingleQuotes ''hello'' = ''hello''"
    by (simp_all add: encodeWithinSingleQuotes_def encodeBackslash_def)
  from inst have "getProp (translationsTypeOf helloTypes) (encodeBackslash ''hello'')
      = Some (''() => '' @ ?union)"
    by blast
  then have look: "getProp (translationsTypeOf helloTypes) ''hello''
      = Some (''() => '' @ [SQ] @ ''Hello'' @ [SQ] @ '' | '' @ [SQ] @ ''Bonjour'' @ [SQ])"
    by (simp only: enc un)
  from inst have "\<exists>pre post. ?text =
      pre @ [SQ] @ encodeWithinSingleQuotes (encodeBackslash ''hello'') @ [SQ]
        @ '': () => '' @ ?union @ '','' @ post"
    by blast
  then have entryText: "\<exists>pre post. ?text =
      pre @ [SQ] @ ''hello'' @ [SQ] @ '': () => '' @ [SQ] @ ''Hello'' @ [SQ] @ '' | ''
        @ [SQ] @ ''Bonjour'' @ [SQ] @ '','' @ post"
    by (simp only: enc un append_assoc)
  from inst have "\<forall>m \<in> set (keyMessages ''hello'' (objectValues (languages helloUnit))).
      BS \<notin> set m \<and> LF \<notin> set m \<and> CHR 0x0D \<notin> set m
      \<longrightarrow> readSingleQuoted (quoteMessage m) = Some m"
    by blast
  then have readBack: "readSingleQuoted (quoteMessage ''Bonjour'') = Some ''Bonjour''"
    by (simp add: km)
  show ?thesis
    by (rule conjI [OF h0 conjI [OF h1 conjI [OF h2 conjI [OF h3 conjI [OF h4
        conjI [OF h5 conjI [OF look conjI [OF entryText readBack]]]]]]]])
qed

text \<open>
  A unit whose one key is \<open>__proto__\<close>, with a literal message: the loop records the key, and
  the type object of the module has no accessor at all, where the claim generates one.
\<close>

theorem proto_key_without_accessor_counterexample:
  "keysLoop (\<lambda>m. Inr [Literal m]) [(''en'', [(''__proto__'', TranslationData ''Hi'')])]
      [''__proto__''] ([], [])
     = Inr ([(''__proto__'',
              \<lparr> params = [], message = [SQ] @ ''Hi'' @ [SQ],
                returnType = ''string'', hasTags = False \<rparr>)], [])
   \<and> translationsTypeOf
        [(''__proto__'',
          \<lparr> params = [], message = [SQ] @ ''Hi'' @ [SQ],
            returnType = ''string'', hasTags = False \<rparr>)] = []
   \<and> serialiseObjectToType
        (stringValues
          (translationsTypeOf
            [(''__proto__'',
              \<lparr> params = [], message = [SQ] @ ''Hi'' @ [SQ],
                returnType = ''string'', hasTags = False \<rparr>)])) = ''{  }''"
proof -
  let ?info = "\<lparr> params = [], message = [SQ] @ ''Hi'' @ [SQ],
                returnType = ''string'', hasTags = False \<rparr>"
  have vals: "objectValues [(''en'', [(''__proto__'', TranslationData ''Hi'')])]
      = [[(''__proto__'', TranslationData ''Hi'')]]"
    by (simp add: objectValues_def objectEntries_def isArrayIndex_def isDigit_def)
  have h1: "keysLoop (\<lambda>m. Inr [Literal m]) [(''en'', [(''__proto__'', TranslationData ''Hi'')])]
      [''__proto__''] ([], []) = Inr ([(''__proto__'', ?info)], [])"
    by (simp add: vals getProp_def readProp_def extractParamTypes_def spread_Nil_Nil newSet_def
        setAdd_def quoteMessage_def encodeWithinSingleQuotes_def)
  have h2: "translationsTypeOf [(''__proto__'', ?info)] = []"
    by (simp add: translationsTypeOf_def setProp_def getProp_def encodeBackslash_def)
  have h3: "serialiseObjectToType (stringValues (translationsTypeOf [(''__proto__'', ?info)]))
      = ''{  }''"
    unfolding h2 by (simp add: stringValues_def serialiseObjectToType.simps objectEntries_Nil)
  show ?thesis
    by (rule conjI [OF h1 conjI [OF h2 h3]])
qed

text \<open>
  \<^bold>\<open>C8\<close>. For a file added or changed: a path that is neither an authoring-locale file nor a
  derived-locale file leaves the world as it is; otherwise the unit at the resolved path is
  reloaded and regenerated, and an error of the loader or of the generator becomes two console
  entries, the first naming the relative path of the event. The handler never rejects, so the
  session goes on with the next event.
\<close>

theorem file_event_isolated:
  "(\<not> isDevLanguageFile e p \<and> \<not> isAltLanguageFile e p \<longrightarrow> onTranslationChange e w p = Inr w)
   \<and> ((isDevLanguageFile e p \<or> isAltLanguageFile e p)
        \<and> target =
            (if isDevLanguageFile e p then pathResolve e (cwd e) p
             else getDevLanguageFileFromAltLanguageFile e (pathResolve e (cwd e) p))
        \<and> target \<noteq> []
      \<longrightarrow> onTranslationChange e w p =
           (case loadTranslation e (files w) target of
              Inl err \<Rightarrow>
                Inr (w\<lparr> console := console w
                       @ [Log [''Failed to generate types for'', p], LogError err] \<rparr>)
            | Inr loadedTranslation \<Rightarrow>
                (case generateRuntime e w loadedTranslation of
                   Inl err \<Rightarrow>
                     Inr (w\<lparr> console := console w
                            @ [Log [''Failed to generate types for'', p], LogError err] \<rparr>)
                 | Inr w' \<Rightarrow> Inr w')))
   \<and> (\<exists>w'. onTranslationChange e w p = Inr w'
          \<and> watchSession e w (Add p # evs) = watchSession e w' evs
          \<and> watchSession e w (Change p # evs) = watchSession e w' evs)"
proof (intro conjI impI)
  assume "\<not> isDevLanguageFile e p \<and> \<not> isAltLanguageFile e p"
  then show "onTranslationChange e w p = Inr w"
    by (simp add: onTranslationChange_def)
next
  assume a: "(isDevLanguageFile e p \<or> isAltLanguageFile e p)
        \<and> target =
            (if isDevLanguageFile e p then pathResolve e (cwd e) p
             else getDevLanguageFileFromAltLanguageFile e (pathResolve e (cwd e) p))
        \<and> target \<noteq> []"
  show "onTranslationChange e w p =
           (case loadTranslation e (files w) target of
              Inl err \<Rightarrow>
                Inr (w\<lparr> console := console w
                       @ [Log [''Failed to generate types for'', p], LogError err] \<rparr>)
            | Inr loadedTranslation \<Rightarrow>
                (case generateRuntime e w loadedTranslation of
                   Inl err \<Rightarrow>
                     Inr (w\<lparr> console := console w
                            @ [Log [''Failed to generate types for'', p], LogError err] \<rparr>)
                 | Inr w' \<Rightarrow> Inr w'))"
  proof (cases "isDevLanguageFile e p")
    case True
    with a have t: "pathResolve e (cwd e) p = target" and ne: "target \<noteq> []"
      by auto
    show ?thesis
      by (cases "loadTranslation e (files w) target")
        (simp_all add: onTranslationChange_def True t ne split: sum.splits)
  next
    case False
    with a have alt: "isAltLanguageFile e p"
      and t: "getDevLanguageFileFromAltLanguageFile e (pathResolve e (cwd e) p) = target"
      and ne: "target \<noteq> []"
      by auto
    show ?thesis
      by (cases "loadTranslation e (files w) target")
        (simp_all add: onTranslationChange_def False alt t ne split: sum.splits)
  qed
next
  have "\<exists>w'. onTranslationChange e w p = Inr w'"
    unfolding onTranslationChange_def Let_def
    by (simp split: option.split sum.split)
  then obtain w' where r: "onTranslationChange e w p = Inr w'" by blast
  then have "watchSession e w (Add p # evs) = watchSession e w' evs"
    and "watchSession e w (Change p # evs) = watchSession e w' evs"
    by (simp_all add: handleEvent_def)
  with r show "\<exists>w'. onTranslationChange e w p = Inr w'
          \<and> watchSession e w (Add p # evs) = watchSession e w' evs
          \<and> watchSession e w (Change p # evs) = watchSession e w' evs"
    by blast
qed

theorem file_event_isolated_witness:
  "(\<not> isDevLanguageFile exampleEnv ''README.md'' \<and> \<not> isAltLanguageFile exampleEnv ''README.md'')
   \<and> onTranslationChange exampleEnv seededWorld ''README.md'' = Inr seededWorld
   \<and> isDevLanguageFile exampleEnv ''a.vocab/translations.json''
   \<and> onTranslationChange exampleEnv emptyWorld ''a.vocab/translations.json'' =
       Inr (emptyWorld\<lparr> console :=
              [Log [''Failed to generate types for'', ''a.vocab/translations.json''],
               LogError (LoadError ''/app/a.vocab/translations.json'')] \<rparr>)
   \<and> isAltLanguageFile exampleEnv ''a.vocab/fr.translations.json''
   \<and> onTranslationChange exampleEnv seededWorld ''a.vocab/fr.translations.json'' =
       Inr (seededWorld\<lparr> files :=
              [''/app/a.vocab/translations.json'' \<mapsto> ''{}'',
               ''/app/a.vocab/translations.json.ts'' \<mapsto>
                 serialiseTranslationRuntime exampleEnv [] [] exampleUnit],
            writes := [(''/app/a.vocab/translations.json.ts'',
                        serialiseTranslationRuntime exampleEnv [] [] exampleUnit)] \<rparr>)
   \<and> watchSession exampleEnv emptyWorld
         [Change ''a.vocab/translations.json'', Add ''README.md''] =
       Inr (emptyWorld\<lparr> console :=
              [Log [''Failed to generate types for'', ''a.vocab/translations.json''],
               LogError (LoadError ''/app/a.vocab/translations.json'')] \<rparr>)"
proof -
  let ?dev = "''a.vocab/translations.json''"
  let ?alt = "''a.vocab/fr.translations.json''"
  let ?target = "''/app/a.vocab/translations.json''"
  let ?out = "''/app/a.vocab/translations.json.ts''"
  let ?text = "serialiseTranslationRuntime exampleEnv [] [] exampleUnit"
  let ?failed = "emptyWorld\<lparr> console :=
              [Log [''Failed to generate types for'', ?dev], LogError (LoadError ?target)] \<rparr>"
  let ?generated = "seededWorld\<lparr> files := [?target \<mapsto> ''{}'', ?out \<mapsto> ?text],
            writes := [(?out, ?text)] \<rparr>"
  have n: "\<not> isDevLanguageFile exampleEnv ''README.md'' \<and> \<not> isAltLanguageFile exampleEnv ''README.md''"
    by (simp add: exampleEnv_def)
  have d: "isDevLanguageFile exampleEnv ?dev"
    by (simp add: exampleEnv_def)
  have a: "isAltLanguageFile exampleEnv ?alt" and nd: "\<not> isDevLanguageFile exampleEnv ?alt"
    by (simp_all add: exampleEnv_def)
  have td: "?target = (if isDevLanguageFile exampleEnv ?dev
        then pathResolve exampleEnv (cwd exampleEnv) ?dev
        else getDevLanguageFileFromAltLanguageFile exampleEnv
               (pathResolve exampleEnv (cwd exampleEnv) ?dev))"
    by (simp add: exampleEnv_def)
  have ta: "?target = (if isDevLanguageFile exampleEnv ?alt
        then pathResolve exampleEnv (cwd exampleEnv) ?alt
        else getDevLanguageFileFromAltLanguageFile exampleEnv
               (pathResolve exampleEnv (cwd exampleEnv) ?alt))"
    by (simp add: exampleEnv_def)
  have ne: "?target \<noteq> []" by simp
  have load_fail: "loadTranslation exampleEnv (files emptyWorld) ?target = Inl (LoadError ?target)"
    by (simp add: exampleEnv_def emptyWorld_def)
  have load_ok: "loadTranslation exampleEnv (files seededWorld) ?target = Inr exampleUnit"
    by (simp add: exampleEnv_def seededWorld_def exampleUnit_def)
  have gen: "generateRuntime exampleEnv seededWorld exampleUnit = Inr ?generated"
    by (simp add: generateRuntime_example writeIfChanged_cases writeFile_def fsPath_example
        pathDirname_example exampleEnv_fields seededWorld_def)
  from file_event_isolated [of exampleEnv "''README.md''" seededWorld "[]" "[]"] n
  have r1: "onTranslationChange exampleEnv seededWorld ''README.md'' = Inr seededWorld"
    by blast
  from file_event_isolated [of exampleEnv ?dev emptyWorld ?target "[]"] d td ne
  have "onTranslationChange exampleEnv emptyWorld ?dev =
      (case loadTranslation exampleEnv (files emptyWorld) ?target of
         Inl err \<Rightarrow> Inr (emptyWorld\<lparr> console := console emptyWorld
                       @ [Log [''Failed to generate types for'', ?dev], LogError err] \<rparr>)
       | Inr loadedTranslation \<Rightarrow>
           (case generateRuntime exampleEnv emptyWorld loadedTranslation of
              Inl err \<Rightarrow> Inr (emptyWorld\<lparr> console := console emptyWorld
                       @ [Log [''Failed to generate types for'', ?dev], LogError err] \<rparr>)
            | Inr w' \<Rightarrow> Inr w'))"
    by blast
  then have r2: "onTranslationChange exampleEnv emptyWorld ?dev = Inr ?failed"
    by (simp add: load_fail) (simp add: emptyWorld_def)
  from file_event_isolated [of exampleEnv ?alt seededWorld ?target "[]"] a ta ne
  have "onTranslationChange exampleEnv seededWorld ?alt =
      (case loadTranslation exampleEnv (files seededWorld) ?target of
         Inl err \<Rightarrow> Inr (seededWorld\<lparr> console := console seededWorld
                       @ [Log [''Failed to generate types for'', ?alt], LogError err] \<rparr>)
       | Inr loadedTranslation \<Rightarrow>
           (case generateRuntime exampleEnv seededWorld loadedTranslation of
              Inl err \<Rightarrow> Inr (seededWorld\<lparr> console := console seededWorld
                       @ [Log [''Failed to generate types for'', ?alt], LogError err] \<rparr>)
            | Inr w' \<Rightarrow> Inr w'))"
    by blast
  then have r3: "onTranslationChange exampleEnv seededWorld ?alt = Inr ?generated"
    by (simp add: load_ok gen)
  from file_event_isolated [of exampleEnv ?dev emptyWorld "[]" "[Add ''README.md'']"] r2
  have s1: "watchSession exampleEnv emptyWorld [Change ?dev, Add ''README.md''] =
      watchSession exampleEnv ?failed [Add ''README.md'']"
    by auto
  from file_event_isolated [of exampleEnv "''README.md''" ?failed "[]" "[]"] n
  have "onTranslationChange exampleEnv ?failed ''README.md'' = Inr ?failed"
    by blast
  then have s2: "watchSession exampleEnv ?failed [Add ''README.md''] = Inr ?failed"
    by (simp add: handleEvent_def)
  have r4: "watchSession exampleEnv emptyWorld [Change ?dev, Add ''README.md''] = Inr ?failed"
    using s1 s2 by simp
  show ?thesis
    by (rule conjI [OF n conjI [OF r1 conjI [OF d conjI [OF r2 conjI [OF a conjI [OF r3 r4]]]]]])
qed

text \<open>
  \<^bold>\<open>C9\<close>. The claim: for a directory added that matches the pattern of translation directories
  and holds no authoring file, the handler creates exactly one authoring file in it, with the
  content \<open>{}\<close>, and creates nothing when the file exists. The handler hands the path of the
  event, which is relative to the project root, to \<open>fs\<close>, which resolves it against the
  working directory of the process; the handler of file events resolves the same paths against
  the project root. With the project in \<open>/app\<close> and the process in \<open>/srv\<close>, the event for the
  new directory \<open>/app/a.vocab\<close> makes the handler look for \<open>/srv/a.vocab/translations.json\<close>:
  where \<open>/srv/a.vocab\<close> does not exist the write fails, the handler rejects, and nothing is
  created in the new directory; where it exists the file is created there. Under the same
  configuration the handler of file events finds the unit in \<open>/app\<close>. With the process in the
  project root the file is created in the new directory, once.
\<close>

theorem new_directory_seeded_against_process_directory:
  "isTranslationDirectory elsewhereEnv ''a.vocab''
   \<and> pathResolve elsewhereEnv (cwd elsewhereEnv) ''a.vocab'' \<in> set (dirs emptyWorld)
   \<and> files emptyWorld
        (pathResolve elsewhereEnv (cwd elsewhereEnv)
           (pathJoin elsewhereEnv ''a.vocab'' (devTranslationFileName elsewhereEnv))) = None
   \<and> onNewDirectory elsewhereEnv emptyWorld ''a.vocab'' =
       Inl (ENOENT ''/srv/a.vocab/translations.json'')
   \<and> watchSession elsewhereEnv emptyWorld [AddDir ''a.vocab'', Add ''README.md''] =
       Inl (ENOENT ''/srv/a.vocab/translations.json'')
   \<and> onNewDirectory elsewhereEnv twoProjectsWorld ''a.vocab'' =
       Inr (twoProjectsWorld\<lparr> files := [''/srv/a.vocab/translations.json'' \<mapsto> ''{}''],
              writes := [(''/srv/a.vocab/translations.json'', ''{}'')] \<rparr>)
   \<and> onTranslationChange elsewhereEnv seededWorld ''a.vocab/translations.json'' =
       Inr (seededWorld\<lparr> files :=
              [''/app/a.vocab/translations.json'' \<mapsto> ''{}'',
               ''/app/a.vocab/translations.json.ts'' \<mapsto>
                 serialiseTranslationRuntime elsewhereEnv [] [] exampleUnit],
            writes := [(''/app/a.vocab/translations.json.ts'',
                        serialiseTranslationRuntime elsewhereEnv [] [] exampleUnit)] \<rparr>)
   \<and> onNewDirectory exampleEnv emptyWorld ''a.vocab'' =
       Inr (emptyWorld\<lparr> files := [''/app/a.vocab/translations.json'' \<mapsto> ''{}''],
              writes := [(''/app/a.vocab/translations.json'', ''{}'')] \<rparr>)
   \<and> onNewDirectory exampleEnv
       (emptyWorld\<lparr> files := [''/app/a.vocab/translations.json'' \<mapsto> ''{}''],
              writes := [(''/app/a.vocab/translations.json'', ''{}'')] \<rparr>) ''a.vocab'' =
       Inr (emptyWorld\<lparr> files := [''/app/a.vocab/translations.json'' \<mapsto> ''{}''],
              writes := [(''/app/a.vocab/translations.json'', ''{}'')] \<rparr>)"
proof -
  let ?new = "''a.vocab/translations.json''"
  let ?out = "''/app/a.vocab/translations.json.ts''"
  let ?text = "serialiseTranslationRuntime elsewhereEnv [] [] exampleUnit"
  let ?seeded = "emptyWorld\<lparr> files := [''/app/a.vocab/translations.json'' \<mapsto> ''{}''],
              writes := [(''/app/a.vocab/translations.json'', ''{}'')] \<rparr>"
  have t: "isTranslationDirectory elsewhereEnv ''a.vocab''"
    by (simp add: elsewhereEnv_fields exampleEnv_fields)
  have te: "isTranslationDirectory exampleEnv ''a.vocab''"
    by (simp add: exampleEnv_fields)
  have p: "pathJoin elsewhereEnv ''a.vocab'' (devTranslationFileName elsewhereEnv) = ?new"
    and pe: "pathJoin exampleEnv ''a.vocab'' (devTranslationFileName exampleEnv) = ?new"
    by (simp_all add: elsewhereEnv_fields exampleEnv_fields)
  have dir: "pathResolve elsewhereEnv (cwd elsewhereEnv) ''a.vocab'' \<in> set (dirs emptyWorld)"
    by (simp add: elsewhereEnv_def exampleEnv_def emptyWorld_def)
  have none: "files emptyWorld (pathResolve elsewhereEnv (cwd elsewhereEnv)
      (pathJoin elsewhereEnv ''a.vocab'' (devTranslationFileName elsewhereEnv))) = None"
    by (simp add: emptyWorld_def)
  have r1: "onNewDirectory elsewhereEnv emptyWorld ''a.vocab'' =
      Inl (ENOENT ''/srv/a.vocab/translations.json'')"
    by (simp add: onNewDirectory_def Let_def t p existsSync_def writeFile_def fsPath_relative
        elsewhereEnv_fields(7) pathDirname_example emptyWorld_def)
  have r2: "watchSession elsewhereEnv emptyWorld [AddDir ''a.vocab'', Add ''README.md''] =
      Inl (ENOENT ''/srv/a.vocab/translations.json'')"
    by (simp add: handleEvent_def r1)
  have r3: "onNewDirectory elsewhereEnv twoProjectsWorld ''a.vocab'' =
      Inr (twoProjectsWorld\<lparr> files := [''/srv/a.vocab/translations.json'' \<mapsto> ''{}''],
             writes := [(''/srv/a.vocab/translations.json'', ''{}'')] \<rparr>)"
    by (simp add: onNewDirectory_def Let_def t p existsSync_def writeFile_def fsPath_relative
        elsewhereEnv_fields(7,10) exampleEnv_fields(13) pathDirname_example twoProjectsWorld_def)
  have load: "loadTranslation elsewhereEnv (files seededWorld) ''/app/a.vocab/translations.json''
      = Inr exampleUnit"
    by (simp add: elsewhereEnv_def exampleEnv_def seededWorld_def exampleUnit_def)
  have gen: "generateRuntime elsewhereEnv seededWorld exampleUnit =
      Inr (seededWorld\<lparr> files := [''/app/a.vocab/translations.json'' \<mapsto> ''{}'', ?out \<mapsto> ?text],
            writes := [(?out, ?text)] \<rparr>)"
    by (simp add: generateRuntime_def exampleUnit_def elsewhereEnv_def exampleEnv_def
        writeIfChanged_cases writeFile_def fsPath_def seededWorld_def)
  have r4: "onTranslationChange elsewhereEnv seededWorld ''a.vocab/translations.json'' =
      Inr (seededWorld\<lparr> files := [''/app/a.vocab/translations.json'' \<mapsto> ''{}'', ?out \<mapsto> ?text],
            writes := [(?out, ?text)] \<rparr>)"
    unfolding onTranslationChange_def Let_def
    by (simp add: elsewhereEnv_fields exampleEnv_fields) (simp add: exampleEnv_def load gen)
  have r5: "onNewDirectory exampleEnv emptyWorld ''a.vocab'' = Inr ?seeded"
    by (simp add: onNewDirectory_def Let_def te pe existsSync_def writeFile_def fsPath_relative
        exampleEnv_fields(13) pathDirname_example emptyWorld_def)
  have r6: "onNewDirectory exampleEnv ?seeded ''a.vocab'' = Inr ?seeded"
    by (simp add: onNewDirectory_def Let_def te pe existsSync_def fsPath_relative)
  show ?thesis
    by (rule conjI [OF t conjI [OF dir conjI [OF none conjI [OF r1 conjI [OF r2
        conjI [OF r3 conjI [OF r4 conjI [OF r5 r6]]]]]]]])
qed

text \<open>
  \<^bold>\<open>C10\<close>. The claim: a key of the key set that no language translates is neither skipped nor
  reported as an error, and the generator still emits an accessor for it. The test for a
  translation is a property read, so a key that is a name of \<open>Object.prototype\<close>, such as
  \<open>constructor\<close>, is taken as translated and ends the generation with the error of the parser.
  For every other key the claim holds in this form, in a unit whose keys pass the loop: the key
  raises no error in the loop and is recorded with the empty parameter map, no markup and the
  empty message union; the text of the module holds the entry of the key, its name between
  single quotes, then \<open>() => \<close> and nothing before the comma; and this text is what the
  generator hands to the formatter, whose verdict on it is the outcome of the generation: its
  error, with nothing written, or the write step on the text it returns.
\<close>

theorem untranslated_key:
  assumes "keysLoop (parse e) (languages lt) (keys lt) ([], []) = Inr (types, imps)"
    and "key \<in> set (keys lt)"
    and "list_all (\<lambda>lang. getProp lang key = None) (objectValues (languages lt))"
    and "key \<notin> set objectPrototypeNames"
  shows "getProp types key =
       Some \<lparr> params = [], message = [], returnType = ''string'', hasTags = False \<rparr>
     \<and> languagesLoop (parse e) key (objectValues (languages lt)) ([], [], False, i)
         = Inr ([], [], False, i)
     \<and> getProp (translationsTypeOf types) (encodeBackslash key) = Some ''() => ''
     \<and> (\<exists>pre post. serialiseTranslationRuntime e types imps lt =
           pre @ [SQ] @ encodeWithinSingleQuotes (encodeBackslash key) @ [SQ] @ '': () => ,''
             @ post)
     \<and> generateRuntime e w lt =
         (case resolveConfig e (filePath lt) of
            Inl err \<Rightarrow> Inl err
          | Inr cfg \<Rightarrow>
              (case format e (serialiseTranslationRuntime e types imps lt) cfg of
                 Inl err \<Rightarrow> Inl err
               | Inr decl \<Rightarrow>
                   writeIfChanged e w (getTSFileFromDevLanguageFile e (filePath lt)) decl))"
proof -
  let ?ls = "objectValues (languages lt)"
  have none: "keyMessages key ls = []" if "list_all (\<lambda>lang. getProp lang key = None) ls" for ls
    using that by (induction ls) (simp_all add: keyMessages_Nil keyMessages_Cons)
  have km: "map (parse e) (keyMessages key ?ls) = map Inr []"
    using none [OF assms(3)] by simp
  have ni: "list_all (\<lambda>lang. readProp lang key \<noteq> Inherited) ls"
    if "list_all (\<lambda>lang. getProp lang key = None) ls" for ls
    using that assms(4) by (induction ls) (simp_all add: readProp_def)
  have loop: "languagesLoop (parse e) key ?ls ([], [], False, j) = Inr ([], [], False, j)" for j
    using languagesLoop_Inr [OF km ni [OF assms(3)], of "[]" "[]" False j] none [OF assms(3)]
    by simp
  from keysLoop_entry [OF assms(1,2)] loop
  have entry: "getProp types key =
       Some \<lparr> params = [], message = [], returnType = ''string'', hasTags = False \<rparr>"
    by auto
  have d: "distinct (map fst types)"
    using keysLoop_distinct [OF assms(1)] by simp
  have np: "key \<noteq> ''__proto__''"
    using assms(4) by (auto simp: objectPrototypeNames_def)
  have tfs: "translationFunctionString
         \<lparr> params = [], message = [], returnType = ''string'', hasTags = False \<rparr> = ''() => ''"
    by (simp add: translationFunctionString_def objectKeys_Nil)
  have look: "getProp (translationsTypeOf types) (encodeBackslash key) = Some ''() => ''"
    using entry translationsTypeOf_lookup [OF d np] tfs by simp
  from serialiseTranslationRuntime_entry [OF look, of e imps lt]
  have entryText: "\<exists>pre post. serialiseTranslationRuntime e types imps lt =
      pre @ [SQ] @ encodeWithinSingleQuotes (encodeBackslash key) @ [SQ] @ '': () => ,'' @ post"
    by simp
  note gen = generateRuntime_keysLoop [OF assms(1), of w]
  show ?thesis
    by (rule conjI [OF entry conjI [OF loop conjI [OF look conjI [OF entryText gen]]]])
qed

theorem untranslated_key_witness:
  "keysLoop (parse strictEnv) (languages orphanUnit) (keys orphanUnit) ([], [])
     = Inr (orphanTypes, [])
   \<and> ''orphan'' \<in> set (keys orphanUnit)
   \<and> list_all (\<lambda>lang. getProp lang ''orphan'' = None) (objectValues (languages orphanUnit))
   \<and> ''orphan'' \<notin> set objectPrototypeNames
   \<and> getProp orphanTypes ''orphan'' =
       Some \<lparr> params = [], message = [], returnType = ''string'', hasTags = False \<rparr>
   \<and> (\<exists>pre post.
         serialiseTranslationRuntime strictEnv orphanTypes [] orphanUnit =
         pre @ [SQ] @ ''orphan'' @ [SQ] @ '': () => ,'' @ post)
   \<and> generateRuntime strictEnv emptyWorld orphanUnit =
       Inl (FormatError ''SyntaxError: Type expected.'')
   \<and> keysLoop (parse exampleEnv) (languages orphanUnit) (keys orphanUnit) ([], [])
     = Inr (orphanTypes, [])
   \<and> generateRuntime exampleEnv emptyWorld orphanUnit =
     Inr (emptyWorld\<lparr> files := [''/app/a.vocab/translations.json.ts'' \<mapsto>
              serialiseTranslationRuntime exampleEnv orphanTypes [] orphanUnit],
            writes := [(''/app/a.vocab/translations.json.ts'',
              serialiseTranslationRuntime exampleEnv orphanTypes [] orphanUnit)] \<rparr>)"
proof -
  let ?out = "''/app/a.vocab/translations.json.ts''"
  let ?text = "serialiseTranslationRuntime exampleEnv orphanTypes [] orphanUnit"
  let ?strict = "serialiseTranslationRuntime strictEnv orphanTypes [] orphanUnit"
  let ?w1 = "emptyWorld\<lparr> files := [?out \<mapsto> ?text], writes := [(?out, ?text)] \<rparr>"
  note h1 = orphanUnit_loop
  have h1e: "keysLoop (parse exampleEnv) (languages orphanUnit) (keys orphanUnit) ([], [])
      = Inr (orphanTypes, [])"
    using h1 by (simp only: strictEnv_fields)
  have h2: "''orphan'' \<in> set (keys orphanUnit)"
    by (simp add: orphanUnit_fields)
  have h3: "list_all (\<lambda>lang. getProp lang ''orphan'' = None)
      (objectValues (languages orphanUnit))"
    by (simp add: orphanUnit_values getProp_def)
  have h4: "''orphan'' \<notin> set objectPrototypeNames"
    by (simp add: objectPrototypeNames_def)
  note strict = untranslated_key [OF h1 h2 h3 h4, where w = emptyWorld]
  note lenient = untranslated_key [OF h1e h2 h3 h4, where w = emptyWorld]
  have enc: "encodeWithinSingleQuotes (encodeBackslash ''orphan'') = ''orphan''"
    by (simp add: encodeWithinSingleQuotes_def encodeBackslash_def)
  from strict have entry: "getProp orphanTypes ''orphan'' =
      Some \<lparr> params = [], message = [], returnType = ''string'', hasTags = False \<rparr>"
    by blast
  from strict have "\<exists>pre post. ?strict =
      pre @ [SQ] @ encodeWithinSingleQuotes (encodeBackslash ''orphan'') @ [SQ]
        @ '': () => ,'' @ post"
    by blast
  then have entryText: "\<exists>pre post. ?strict =
      pre @ [SQ] @ ''orphan'' @ [SQ] @ '': () => ,'' @ post"
    by (simp only: enc)
  then obtain pre post where
    "?strict = (pre @ [SQ] @ ''orphan'' @ [SQ] @ '': '') @ ''() => ,'' @ post"
    by auto
  then have inc: "includesText ?strict ''() => ,''"
    by (simp only: includesText_append)
  from strict have "generateRuntime strictEnv emptyWorld orphanUnit =
      (case resolveConfig strictEnv (filePath orphanUnit) of
         Inl err \<Rightarrow> Inl err
       | Inr cfg \<Rightarrow>
           (case format strictEnv ?strict cfg of
              Inl err \<Rightarrow> Inl err
            | Inr decl \<Rightarrow>
                writeIfChanged strictEnv emptyWorld
                  (getTSFileFromDevLanguageFile strictEnv (filePath orphanUnit)) decl))"
    by blast
  then have rej: "generateRuntime strictEnv emptyWorld orphanUnit =
      Inl (FormatError ''SyntaxError: Type expected.'')"
    using inc by (simp add: strictEnv_fields exampleEnv_fields)
  from lenient have "generateRuntime exampleEnv emptyWorld orphanUnit =
      (case resolveConfig exampleEnv (filePath orphanUnit) of
         Inl err \<Rightarrow> Inl err
       | Inr cfg \<Rightarrow>
           (case format exampleEnv ?text cfg of
              Inl err \<Rightarrow> Inl err
            | Inr decl \<Rightarrow>
                writeIfChanged exampleEnv emptyWorld
                  (getTSFileFromDevLanguageFile exampleEnv (filePath orphanUnit)) decl))"
    by blast
  then have gen: "generateRuntime exampleEnv emptyWorld orphanUnit = Inr ?w1"
    by (simp add: exampleEnv_fields orphanUnit_fields(1) writeIfChanged_cases writeFile_def
        fsPath_example pathDirname_example emptyWorld_def)
  show ?thesis
    by (rule conjI [OF h1 conjI [OF h2 conjI [OF h3 conjI [OF h4 conjI [OF entry
        conjI [OF entryText conjI [OF rej conjI [OF h1e gen]]]]]]]])
qed

text \<open>
  A unit with the key \<open>constructor\<close> and one language, which does not translate it: the loop
  ends with the error of the parser and the generation is rejected, where the claim has the key
  pass without an error. And the unit with the key \<open>orphan\<close>, under the formatter that parses
  its input: the generation is rejected with the error of the formatter and nothing is written,
  where the claim has an accessor emitted; the same formatter lets the unit without such a key
  pass.
\<close>

theorem untranslated_key_rejected_counterexample:
  "list_all (\<lambda>lang. getProp lang ''constructor'' = None)
     (objectValues [(''en'', ([] :: LanguageTranslations))])
   \<and> keysLoop (parse exampleEnv) [(''en'', [])] [''constructor''] ([], []) = Inl parseUndefined
   \<and> generateRuntime exampleEnv emptyWorld
       \<lparr> filePath = ''/app/a.vocab/translations.json'', keys = [''constructor''],
         languages = [(''en'', [])] \<rparr> = Inl parseUndefined
   \<and> list_all (\<lambda>lang. getProp lang ''orphan'' = None) (objectValues (languages orphanUnit))
   \<and> generateRuntime strictEnv emptyWorld orphanUnit =
       Inl (FormatError ''SyntaxError: Type expected.'')
   \<and> generateRuntime strictEnv emptyWorld helloUnit =
       Inr (emptyWorld\<lparr> files := [''/app/a.vocab/translations.json.ts'' \<mapsto>
              serialiseTranslationRuntime strictEnv helloTypes [] helloUnit],
            writes := [(''/app/a.vocab/translations.json.ts'',
              serialiseTranslationRuntime strictEnv helloTypes [] helloUnit)] \<rparr>)"
proof -
  have vals: "objectValues [(''en'', ([] :: LanguageTranslations))] = [[]]"
    by (simp add: objectValues_def objectEntries_def isArrayIndex_def isDigit_def)
  have h1: "list_all (\<lambda>lang. getProp lang ''constructor'' = None)
      (objectValues [(''en'', ([] :: LanguageTranslations))])"
    by (simp add: vals getProp_def)
  have h2: "keysLoop (parse exampleEnv) [(''en'', [])] [''constructor''] ([], [])
      = Inl parseUndefined"
    by (simp add: vals readProp_def getProp_def objectPrototypeNames_def)
  have h3: "generateRuntime exampleEnv emptyWorld
       \<lparr> filePath = ''/app/a.vocab/translations.json'', keys = [''constructor''],
         languages = [(''en'', [])] \<rparr> = Inl parseUndefined"
    by (simp add: generateRuntime_def vals readProp_def getProp_def objectPrototypeNames_def)
  have h4: "list_all (\<lambda>lang. getProp lang ''orphan'' = None)
      (objectValues (languages orphanUnit))"
    by (simp add: orphanUnit_values getProp_def)
  show ?thesis
    by (rule conjI [OF h1 conjI [OF h2 conjI [OF h3 conjI [OF h4
        conjI [OF generateRuntime_strict_orphan generateRuntime_strict_hello]]]]])
qed

end
